theory Spec2Isabelle
  imports Main "HOL-Library.Word"
begin

section \<open>The ESP32 multi-camera relay server (ESP32\_Server.ino)\<close>

text \<open>
  The server keeps a fixed table of camera connections, pumps one message per occupied
  slot on every pass of \<open>loop()\<close>, and pushes text events and frame chunks to the
  browser clients through the global \<open>wsBrowser\<close>. The model passes the globals around
  as one record. Everything the program reads from outside (\<open>millis()\<close>,
  \<open>ESP.getFreeHeap()\<close>, the connection's \<open>available()\<close>, the message returned by
  \<open>readBlocking()\<close>) is an argument of the function that reads it. Everything pushed
  to the browsers is appended, in send order, to the field \<open>wsBrowser\<close>.
  A call of \<open>readBlocking()\<close> that never returns, and the pauses \<open>delay(1)\<close> and
  \<open>delay(10)\<close>, are outside the model.
\<close>

subsection \<open>Machine types and constants\<close>

type_synonym u8 = "8 word"

text \<open>\<open>size_t\<close>, \<open>unsigned long\<close> and \<open>uint32_t\<close> are 32 bits wide on the ESP32.\<close>

type_synonym u32 = "32 word"

definition CLIENT_TIMEOUT :: u32 where
  "CLIENT_TIMEOUT = 10000"

definition MAX_CLIENTS :: nat where
  "MAX_CLIENTS = 2"

definition MAX_FRAME_SIZE :: nat where
  "MAX_FRAME_SIZE = 16384"

text \<open>\<open>StaticFrameBuffer::SIZE\<close>\<close>

definition SIZE :: nat where
  "SIZE = MAX_FRAME_SIZE"

definition CHUNK_SIZE :: nat where
  "CHUNK_SIZE = 8192"

subsection \<open>Arduino strings\<close>

text \<open>\<open>String(int)\<close>: the decimal rendering of a signed integer.\<close>

fun dec_digits :: "nat \<Rightarrow> string" where
  "dec_digits n =
     (if n < 10 then [''0123456789'' ! n]
      else dec_digits (n div 10) @ [''0123456789'' ! (n mod 10)])"

declare dec_digits.simps [simp del]

definition String_int :: "int \<Rightarrow> string" where
  "String_int i = (if i < 0 then CHR ''-'' # dec_digits (nat (- i)) else dec_digits (nat i))"

text \<open>\<open>String::indexOf\<close>: the position of the first occurrence, or -1.\<close>

fun startsWith :: "string \<Rightarrow> string \<Rightarrow> bool" where
  "startsWith s [] = True"
| "startsWith [] (p # ps) = False"
| "startsWith (c # cs) (p # ps) = (c = p \<and> startsWith cs ps)"

fun indexOf_from :: "nat \<Rightarrow> string \<Rightarrow> string \<Rightarrow> int" where
  "indexOf_from i [] pat = (if pat = [] then int i else - 1)"
| "indexOf_from i (c # cs) pat =
     (if startsWith (c # cs) pat then int i else indexOf_from (Suc i) cs pat)"

definition indexOf :: "string \<Rightarrow> string \<Rightarrow> int" where
  "indexOf s pat = indexOf_from 0 s pat"

text \<open>The literal the text branch searches for.\<close>

definition motion_marker :: string where
  "motion_marker = ''\"type\":\"motion\"''"

text \<open>
  The status events: \<open>"{\"type\":\"status\",\"camera\":" + String(id) + ",\"status\":\"...\"}"\<close>
  with \<open>disconnected\<close> or \<open>connected\<close> as the status.
\<close>

definition statusMsg :: "int \<Rightarrow> string \<Rightarrow> string" where
  "statusMsg camera what =
     ''{\"type\":\"status\",\"camera\":'' @ String_int camera @
     '',\"status\":\"'' @ what @ ''\"}''"

subsection \<open>The JSON document (ArduinoJson)\<close>

text \<open>
  ArduinoJson is a library outside the repository. Its parser and its serializer are
  parameters of the model (the record \<open>json_lib\<close>); a document is a JSON value.
  The assignment \<open>doc["camera"] = v\<close> follows the library's documented behaviour:
  on an object it replaces the value of the first member with that key, or appends a
  new member; a null document becomes an object first; any other root is left as it is.
  The capacity of the document's memory pool (256 bytes) is not modelled.
\<close>

datatype json =
    JNull
  | JBool bool
  | JInt int
  | JStr string
  | JArr "json list"
  | JObj "(string \<times> json) list"

record json_lib =
  deserializeJson :: "string \<Rightarrow> json"
  serializeJson :: "json \<Rightarrow> string"

fun set_member :: "string \<Rightarrow> json \<Rightarrow> (string \<times> json) list \<Rightarrow> (string \<times> json) list" where
  "set_member k v [] = [(k, v)]"
| "set_member k v ((k', v') # kvs) =
     (if k' = k then (k, v) # kvs else (k', v') # set_member k v kvs)"

fun doc_assign :: "json \<Rightarrow> string \<Rightarrow> json \<Rightarrow> json" where
  "doc_assign JNull k v = JObj [(k, v)]"
| "doc_assign (JObj kvs) k v = JObj (set_member k v kvs)"
| "doc_assign d k v = d"

text \<open>\<open>doc[k]\<close> read back: the first member with that key, if the root is an object.\<close>

fun doc_member :: "json \<Rightarrow> string \<Rightarrow> json option" where
  "doc_member (JObj kvs) k = map_of kvs k"
| "doc_member d k = None"

subsection \<open>Messages, connections and the global state\<close>

text \<open>
  A message read from a camera connection is text, binary, or neither (ping, pong,
  close, or the empty message \<open>readBlocking()\<close> returns when the connection drops).
\<close>

datatype WebsocketsMessage =
    TextMessage string
  | BinaryMessage "u8 list"
  | OtherMessage

text \<open>What \<open>wsBrowser.textAll\<close> and \<open>wsBrowser.binaryAll\<close> push to every browser.\<close>

datatype broadcast =
    TextAll string
  | BinaryAll "u8 list"

text \<open>A camera connection is identified by a handle.\<close>

type_synonym WebsocketsClient = nat

record CameraClient =
  client :: WebsocketsClient
  cameraId :: int
  lastActivity :: u32

text \<open>The constructor \<open>CameraClient(c, id)\<close>; \<open>now\<close> is what \<open>millis()\<close> returns.\<close>

definition new_CameraClient :: "WebsocketsClient \<Rightarrow> int \<Rightarrow> u32 \<Rightarrow> CameraClient" where
  "new_CameraClient c ident now = \<lparr>client = c, cameraId = ident, lastActivity = now\<rparr>"

record StaticFrameBuffer =
  fb_data :: "nat \<Rightarrow> u8"
  fb_length :: nat

record server =
  camClients :: "CameraClient option list"
  activeClients :: u32
  frameBuffer :: StaticFrameBuffer
  wsBrowser :: "broadcast list"
  lastCheck :: u32
  lowMemCount :: int
  lastMemCheck :: u32

text \<open>The globals at start-up: an empty table, a zeroed buffer, nothing sent.\<close>

definition init_server :: server where
  "init_server =
     \<lparr>camClients = replicate MAX_CLIENTS None, activeClients = 0,
      frameBuffer = \<lparr>fb_data = (\<lambda>_. 0), fb_length = 0\<rparr>,
      wsBrowser = [], lastCheck = 0, lowMemCount = 0, lastMemCheck = 0\<rparr>"

definition textAll :: "string \<Rightarrow> server \<Rightarrow> server" where
  "textAll msg s = s\<lparr>wsBrowser := wsBrowser s @ [TextAll msg]\<rparr>"

text \<open>\<open>wsBrowser.binaryAll(frameBuffer.data + offset, chunk)\<close>\<close>

definition binaryAll :: "nat \<Rightarrow> nat \<Rightarrow> server \<Rightarrow> server" where
  "binaryAll offset chunk s =
     s\<lparr>wsBrowser := wsBrowser s @
        [BinaryAll (map (fb_data (frameBuffer s)) [offset ..< offset + chunk])]\<rparr>"

text \<open>\<open>memcpy(dst, src, n)\<close> for \<open>n \<le> length src\<close>.\<close>

definition memcpy :: "(nat \<Rightarrow> u8) \<Rightarrow> u8 list \<Rightarrow> nat \<Rightarrow> (nat \<Rightarrow> u8)" where
  "memcpy dst src n = (\<lambda>i. if i < n then src ! i else dst i)"

text \<open>The number of occupied slots of the table.\<close>

definition occupied :: "server \<Rightarrow> nat" where
  "occupied s = length (filter (\<lambda>x. x \<noteq> None) (camClients s))"

subsection \<open>addCameraClient\<close>

text \<open>
  The scan \<open>for (i = 0; i < MAX_CLIENTS; ++i)\<close> for the first empty slot, as a recursion
  over the remaining indices.
\<close>

fun add_scan :: "nat list \<Rightarrow> CameraClient \<Rightarrow> server \<Rightarrow> bool \<times> server" where
  "add_scan [] c s = (False, s)"
| "add_scan (i # is) c s =
     (if camClients s ! i = None
      then (True, s\<lparr>camClients := (camClients s)[i := Some c],
                    activeClients := activeClients s + 1\<rparr>)
      else add_scan is c s)"

text \<open>
  \<open>heap\<close> is what \<open>ESP.getFreeHeap()\<close> returns, \<open>now\<close> what \<open>millis()\<close> returns in the
  constructor.
\<close>

definition addCameraClient :: "WebsocketsClient \<Rightarrow> u32 \<Rightarrow> u32 \<Rightarrow> server \<Rightarrow> bool \<times> server" where
  "addCameraClient conn heap now s =
     (if MAX_CLIENTS \<le> unat (activeClients s) then (False, s)
      else if unat heap < MAX_FRAME_SIZE + 1024 then (False, s)
      else add_scan [0 ..< MAX_CLIENTS] (new_CameraClient conn (- 1) now) s)"

subsection \<open>removeCameraClient\<close>

definition removeCameraClient :: "nat \<Rightarrow> server \<Rightarrow> server" where
  "removeCameraClient index s =
     (if index < MAX_CLIENTS then
        (case camClients s ! index of
           None \<Rightarrow> s
         | Some c \<Rightarrow>
             (let removedId = cameraId c;
                  s1 = textAll (statusMsg removedId ''disconnected'') s
              in s1\<lparr>camClients := (camClients s1)[index := None],
                    activeClients := activeClients s1 - 1\<rparr>))
      else s)"

subsection \<open>monitorMemory\<close>

text \<open>Which branch a call of \<open>monitorMemory\<close> took.\<close>

datatype mem_outcome = NotDue | SampleOk | SampleLow | ForcedReset

text \<open>The clean-up loop: every occupied slot is reset and the counter decremented.\<close>

fun reset_scan :: "nat list \<Rightarrow> server \<Rightarrow> server" where
  "reset_scan [] s = s"
| "reset_scan (i # is) s =
     reset_scan is
       (if camClients s ! i \<noteq> None
        then s\<lparr>camClients := (camClients s)[i := None], activeClients := activeClients s - 1\<rparr>
        else s)"

text \<open>
  \<open>now\<close> is \<open>millis()\<close>, \<open>heap\<close> is \<open>ESP.getFreeHeap()\<close> (read only when a check is due,
  and stored in an \<open>int\<close>).
\<close>

definition monitorMemory :: "u32 \<Rightarrow> u32 \<Rightarrow> server \<Rightarrow> server \<times> mem_outcome" where
  "monitorMemory now heap s =
     (if now - lastCheck s > 1000 then
        (let freeHeap = sint heap;
             s1 = s\<lparr>lastCheck := now\<rparr>
         in if freeHeap < 10000 then
              (let s2 = s1\<lparr>lowMemCount := lowMemCount s1 + 1\<rparr>
               in if lowMemCount s2 > 5
                  then ((reset_scan [0 ..< MAX_CLIENTS] s2)\<lparr>lowMemCount := 0\<rparr>, ForcedReset)
                  else (s2, SampleLow))
            else (s1\<lparr>lowMemCount := 0\<rparr>, SampleOk))
      else (s, NotDue))"

subsection \<open>handleWebSocketMessage\<close>

text \<open>What one call reads from outside.\<close>

record reads =
  available :: bool
  freeHeap :: u32
  message :: WebsocketsMessage

text \<open>The chunk loop \<open>for (offset = 0; offset < frameBuffer.length; offset += CHUNK_SIZE)\<close>.\<close>

function send_chunks :: "nat \<Rightarrow> server \<Rightarrow> server" where
  "send_chunks offset s =
     (if offset < fb_length (frameBuffer s) then
        (let chunk = min CHUNK_SIZE (fb_length (frameBuffer s) - offset)
         in send_chunks (offset + CHUNK_SIZE) (binaryAll offset chunk s))
      else s)"
  by pat_completeness auto
termination
  by (relation "measure (\<lambda>(offset, s). fb_length (frameBuffer s) - offset)")
     (auto simp: binaryAll_def CHUNK_SIZE_def)

declare send_chunks.simps [simp del]

definition handleWebSocketMessage ::
    "json_lib \<Rightarrow> reads \<Rightarrow> CameraClient \<Rightarrow> server \<Rightarrow> bool \<times> CameraClient \<times> server" where
  "handleWebSocketMessage lib r c s =
     (if \<not> available r then (False, c, s)
      else if unat (freeHeap r) < MAX_FRAME_SIZE + 1024 then (False, c, s)
      else
        (case message r of
           TextMessage d \<Rightarrow>
             (if indexOf d motion_marker \<ge> 0 then
                (let doc = deserializeJson lib d;
                     doc' = doc_assign doc ''camera'' (JInt (cameraId c));
                     modifiedMsg = serializeJson lib doc'
                 in (True, c, textAll modifiedMsg s))
              else (True, c, s))
         | BinaryMessage d \<Rightarrow>
             (let msgLen = length d in
              if msgLen > MAX_FRAME_SIZE then (False, c, s)
              else if msgLen \<le> SIZE then
                (let s1 = s\<lparr>frameBuffer :=
                            \<lparr>fb_data = memcpy (fb_data (frameBuffer s)) d msgLen,
                             fb_length = msgLen\<rparr>\<rparr>;
                     (c1, s2) =
                       (if fb_length (frameBuffer s1) > 12 then
                          (let receivedCameraId = fb_data (frameBuffer s1) 12 in
                           if receivedCameraId = 0x01 \<or> receivedCameraId = 0x02 then
                             (if cameraId c \<noteq> uint receivedCameraId then
                                (let t1 = textAll (statusMsg (cameraId c) ''disconnected'') s1;
                                     c' = c\<lparr>cameraId := uint receivedCameraId\<rparr>;
                                     t2 = textAll (statusMsg (cameraId c') ''connected'') t1
                                 in (c', t2))
                              else (c, s1))
                           else (c, s1))
                        else (c, s1))
                 in (True, c1, send_chunks 0 s2))
              else (False, c, s))
         | OtherMessage \<Rightarrow> (False, c, s)))"

subsection \<open>loop\<close>

text \<open>What one pass of \<open>loop()\<close> reads from outside.\<close>

record loop_reads =
  currentTime :: u32
  monitor_now :: u32
  monitor_heap :: u32
  poll :: bool
  newClient :: WebsocketsClient
  newClient_available :: bool
  admit_heap :: u32
  admit_now :: u32
  slot_reads :: "nat \<Rightarrow> reads"

text \<open>The body of \<open>for (i = 0; i < MAX_CLIENTS; ++i)\<close> for one index.\<close>

definition loop_body :: "json_lib \<Rightarrow> u32 \<Rightarrow> reads \<Rightarrow> nat \<Rightarrow> server \<Rightarrow> server" where
  "loop_body lib t r i s =
     (case camClients s ! i of
        None \<Rightarrow> s
      | Some c \<Rightarrow>
          (case handleWebSocketMessage lib r c s of
             (ok, c', s') \<Rightarrow>
               (if ok then
                  s'\<lparr>camClients := (camClients s')[i := Some (c'\<lparr>lastActivity := t\<rparr>)]\<rparr>
                else
                  (let s'' = s'\<lparr>camClients := (camClients s')[i := Some c']\<rparr>
                   in if t - lastActivity c' > CLIENT_TIMEOUT
                      then removeCameraClient i s''
                      else s''))))"

fun loop_clients :: "json_lib \<Rightarrow> u32 \<Rightarrow> (nat \<Rightarrow> reads) \<Rightarrow> nat list \<Rightarrow> server \<Rightarrow> server" where
  "loop_clients lib t rd [] s = s"
| "loop_clients lib t rd (i # is) s = loop_clients lib t rd is (loop_body lib t (rd i) i s)"

definition loop :: "json_lib \<Rightarrow> loop_reads \<Rightarrow> server \<Rightarrow> server" where
  "loop lib inp s =
     (let s1 = fst (monitorMemory (monitor_now inp) (monitor_heap inp) s);
          s2 = (if currentTime inp - lastMemCheck s1 > 5000
                then s1\<lparr>lastMemCheck := currentTime inp\<rparr> else s1);
          s3 = (if poll inp \<and> unat (activeClients s2) < MAX_CLIENTS \<and> newClient_available inp
                then snd (addCameraClient (newClient inp) (admit_heap inp) (admit_now inp) s2)
                else s2)
      in loop_clients lib (currentTime inp) (slot_reads inp) [0 ..< MAX_CLIENTS] s3)"

subsection \<open>Runs of the server\<close>

text \<open>
  The operations that change the slot table: an admission, an eviction, a memory check,
  and a whole pass of \<open>loop()\<close> (which contains the three and the message pump).
\<close>

datatype server_op =
    Admit WebsocketsClient u32 u32
  | Evict nat
  | Monitor u32 u32
  | Pass loop_reads

fun apply_op :: "json_lib \<Rightarrow> server_op \<Rightarrow> server \<Rightarrow> server" where
  "apply_op lib (Admit conn heap now) s = snd (addCameraClient conn heap now s)"
| "apply_op lib (Evict i) s = removeCameraClient i s"
| "apply_op lib (Monitor now heap) s = fst (monitorMemory now heap s)"
| "apply_op lib (Pass inp) s = loop lib inp s"

fun run :: "json_lib \<Rightarrow> server_op list \<Rightarrow> server \<Rightarrow> server" where
  "run lib [] s = s"
| "run lib (x # xs) s = run lib xs (apply_op lib x s)"

text \<open>
  The calls of \<open>monitorMemory\<close> in a run (one per memory check and one per pass of
  \<open>loop()\<close>): the branch each of them took, in order.
\<close>

fun outcomes :: "json_lib \<Rightarrow> server_op list \<Rightarrow> server \<Rightarrow> mem_outcome list" where
  "outcomes lib [] s = []"
| "outcomes lib (Monitor now heap # xs) s =
     snd (monitorMemory now heap s) # outcomes lib xs (apply_op lib (Monitor now heap) s)"
| "outcomes lib (Pass inp # xs) s =
     snd (monitorMemory (monitor_now inp) (monitor_heap inp) s) #
     outcomes lib xs (apply_op lib (Pass inp) s)"
| "outcomes lib (x # xs) s = outcomes lib xs (apply_op lib x s)"

text \<open>The memory samples of a run: the calls in which a check was due.\<close>

definition samples :: "mem_outcome list \<Rightarrow> mem_outcome list" where
  "samples outs = filter (\<lambda>out. out \<noteq> NotDue) outs"

subsection \<open>Observations\<close>

text \<open>What was pushed to the browsers between two states of one execution.\<close>

definition emitted :: "server \<Rightarrow> server \<Rightarrow> broadcast list" where
  "emitted s s' = drop (length (wsBrowser s)) (wsBrowser s')"

text \<open>The payloads of the binary pushes, and the text pushes, in send order.\<close>

fun binary_payloads :: "broadcast list \<Rightarrow> u8 list list" where
  "binary_payloads [] = []"
| "binary_payloads (BinaryAll b # es) = b # binary_payloads es"
| "binary_payloads (TextAll t # es) = binary_payloads es"

fun text_payloads :: "broadcast list \<Rightarrow> string list" where
  "text_payloads [] = []"
| "text_payloads (TextAll t # es) = t # text_payloads es"
| "text_payloads (BinaryAll b # es) = text_payloads es"

text \<open>
  The table has its fixed size and \<open>activeClients\<close> is the number of occupied slots.
\<close>

definition consistent :: "server \<Rightarrow> bool" where
  "consistent s \<longleftrightarrow>
     length (camClients s) = MAX_CLIENTS \<and> unat (activeClients s) = occupied s"

text \<open>
  In a list of memory samples that starts with \<open>c\<close> low readings already counted:
  every forced reset comes after at least five counted low readings, the five samples
  before it (as far as the list reaches back) are low readings that did not fire, and
  the sample after it is not a forced reset.
\<close>

definition fires_after_five :: "nat \<Rightarrow> mem_outcome list \<Rightarrow> bool" where
  "fires_after_five c outs \<longleftrightarrow>
     (\<forall>k<length outs. outs ! k = ForcedReset \<longrightarrow>
        5 \<le> k + c \<and> (\<forall>j<k. k \<le> j + 5 \<longrightarrow> outs ! j = SampleLow) \<and>
        (Suc k < length outs \<longrightarrow> outs ! Suc k \<noteq> ForcedReset))"

text \<open>
  A frame cut into consecutive pieces of \<open>n\<close> bytes, the last one possibly shorter:
  what the chunked forwarding is meant to produce.
\<close>

function split_chunks :: "nat \<Rightarrow> 'a list \<Rightarrow> 'a list list" where
  "split_chunks n xs =
     (if n = 0 \<or> xs = [] then [] else take n xs # split_chunks n (drop n xs))"
  by pat_completeness auto
termination
  by (relation "measure (\<lambda>(n, xs). length xs)") auto

declare split_chunks.simps [simp del]

text \<open>
  Two JSON objects that differ at most in the value of their member \<open>k\<close> (the first
  one with that key, which is the one the library reads and writes).
\<close>

fun differ_only_at :: "string \<Rightarrow> (string \<times> json) list \<Rightarrow> (string \<times> json) list \<Rightarrow> bool" where
  "differ_only_at k [] [] = True"
| "differ_only_at k ((a, x) # xs) ((b, y) # ys) =
     (a = b \<and> (if a = k then xs = ys else x = y \<and> differ_only_at k xs ys))"
| "differ_only_at k [] (y # ys) = False"
| "differ_only_at k (x # xs) [] = False"

text \<open>
  A compact JSON writer (no escaping inside strings), used to instantiate the
  serializer in the examples.
\<close>

fun show_json :: "json \<Rightarrow> string"
  and show_elems :: "json list \<Rightarrow> string"
  and show_members :: "(string \<times> json) list \<Rightarrow> string" where
  "show_json JNull = ''null''"
| "show_json (JBool b) = (if b then ''true'' else ''false'')"
| "show_json (JInt i) = String_int i"
| "show_json (JStr s) = ''\"'' @ s @ ''\"''"
| "show_json (JArr xs) = ''['' @ show_elems xs @ '']''"
| "show_json (JObj kvs) = ''{'' @ show_members kvs @ ''}''"
| "show_elems [] = []"
| "show_elems [x] = show_json x"
| "show_elems (x # y # ys) = show_json x @ '','' @ show_elems (y # ys)"
| "show_members [] = []"
| "show_members [(k, v)] = ''\"'' @ k @ ''\":'' @ show_json v"
| "show_members ((k, v) # kv # kvs) =
     ''\"'' @ k @ ''\":'' @ show_json v @ '','' @ show_members (kv # kvs)"

subsection \<open>Example inputs\<close>

text \<open>A 13-byte frame whose byte at offset 12 is the given tag.\<close>

definition tagged_frame :: "u8 \<Rightarrow> u8 list" where
  "tagged_frame tag = [0, 0, 0, 0, 0, 0, 0, 0, 0, 0, 0, 0, tag]"

text \<open>A call that finds the connection open, 50000 bytes of free heap and the message.\<close>

definition ready :: "WebsocketsMessage \<Rightarrow> reads" where
  "ready m = \<lparr>available = True, freeHeap = 50000, message = m\<rparr>"

text \<open>
  Three control messages: a motion event as the camera firmware sends it, the same event
  with a camera field of the sender's choice, and an object that says
  \<open>"type":"motion"\<close> but has no \<open>detected\<close> member.
\<close>

definition motion_text :: string where
  "motion_text = ''{\"type\":\"motion\",\"detected\":true}''"

definition motion_text_camera :: "int \<Rightarrow> string" where
  "motion_text_camera n =
     ''{\"type\":\"motion\",\"camera\":'' @ String_int n @ '',\"detected\":true}''"

definition motion_text_bare :: string where
  "motion_text_bare = ''{\"type\":\"motion\"}''"

text \<open>
  Two motion events written with a space after each colon and comma. They differ only
  in the value of their camera field: a number in the first, an object in the second.
\<close>

definition spaced_motion_text :: string where
  "spaced_motion_text = ''{\"type\": \"motion\", \"camera\": 2, \"detected\": true}''"

definition spaced_motion_text_nested :: string where
  "spaced_motion_text_nested =
     ''{\"type\": \"motion\", \"camera\": {\"type\":\"motion\"}, \"detected\": true}''"

text \<open>
  A library instance for the examples: the parser knows the messages above (and
  leaves the document null on anything else), the serializer is \<open>show_json\<close>.
\<close>

definition example_parse :: "string \<Rightarrow> json" where
  "example_parse t =
     (if t = motion_text then
        JObj [(''type'', JStr ''motion''), (''detected'', JBool True)]
      else if t = motion_text_camera 1 then
        JObj [(''type'', JStr ''motion''), (''camera'', JInt 1), (''detected'', JBool True)]
      else if t = motion_text_camera 2 then
        JObj [(''type'', JStr ''motion''), (''camera'', JInt 2), (''detected'', JBool True)]
      else if t = motion_text_bare then
        JObj [(''type'', JStr ''motion'')]
      else if t = spaced_motion_text then
        JObj [(''type'', JStr ''motion''), (''camera'', JInt 2), (''detected'', JBool True)]
      else if t = spaced_motion_text_nested then
        JObj [(''type'', JStr ''motion''), (''camera'', JObj [(''type'', JStr ''motion'')]),
              (''detected'', JBool True)]
      else JNull)"

definition example_lib :: json_lib where
  "example_lib = \<lparr>deserializeJson = example_parse, serializeJson = show_json\<rparr>"

text \<open>
  A pass of \<open>loop()\<close> at time 100 with no memory check due and no new connection, in
  which every occupied slot delivers a 13-byte frame tagged 0x01.
\<close>

definition frame_pass :: loop_reads where
  "frame_pass = \<lparr>currentTime = 100, monitor_now = 100, monitor_heap = 50000, poll = False,
      newClient = 0, newClient_available = False, admit_heap = 50000, admit_now = 100,
      slot_reads = (\<lambda>i. ready (BinaryMessage (tagged_frame 1)))\<rparr>"

section \<open>Properties\<close>

subsection \<open>indexOf finds substrings\<close>

lemma startsWith_iff: "startsWith s p \<longleftrightarrow> (\<exists>b. s = p @ b)"
  by (induction s p rule: startsWith.induct) auto

lemma indexOf_from_range: "indexOf_from i s p = - 1 \<or> int i \<le> indexOf_from i s p"
  by (induction i s p rule: indexOf_from.induct) auto

lemma indexOf_from_iff: "0 \<le> indexOf_from i s p \<longleftrightarrow> (\<exists>a b. s = a @ p @ b)"
proof (induction i s p rule: indexOf_from.induct)
  case (1 i pat)
  then show ?case by auto
next
  case (2 i c cs pat)
  show ?case
  proof (cases "startsWith (c # cs) pat")
    case True
    then obtain b where "c # cs = [] @ pat @ b" by (auto simp: startsWith_iff)
    then have "\<exists>a b. c # cs = a @ pat @ b" by blast
    then show ?thesis using True by simp
  next
    case False
    have "(\<exists>a b. c # cs = a @ pat @ b) \<longleftrightarrow> (\<exists>a b. cs = a @ pat @ b)"
    proof
      assume "\<exists>a b. c # cs = a @ pat @ b"
      then obtain a b where ab: "c # cs = a @ pat @ b" by blast
      show "\<exists>a b. cs = a @ pat @ b"
      proof (cases a)
        case Nil
        then have "startsWith (c # cs) pat" using ab by (auto simp: startsWith_iff)
        then show ?thesis using False by simp
      next
        case (Cons x a')
        then have "cs = a' @ pat @ b" using ab by simp
        then show ?thesis by blast
      qed
    next
      assume "\<exists>a b. cs = a @ pat @ b"
      then obtain a b where "cs = a @ pat @ b" by blast
      then have "c # cs = (c # a) @ pat @ b" by simp
      then show "\<exists>a b. c # cs = a @ pat @ b" by blast
    qed
    then show ?thesis using False 2 by simp
  qed
qed

lemma indexOf_iff: "0 \<le> indexOf s p \<longleftrightarrow> (\<exists>a b. s = a @ p @ b)"
  by (simp add: indexOf_def indexOf_from_iff)

subsection \<open>The chunk loop\<close>

lemma send_chunks_frameBuffer [simp]: "frameBuffer (send_chunks off s) = frameBuffer s"
  by (induction off s rule: send_chunks.induct)
     (subst send_chunks.simps, simp add: binaryAll_def Let_def)

lemma send_chunks_other [simp]:
  "camClients (send_chunks off s) = camClients s"
  "activeClients (send_chunks off s) = activeClients s"
  "lastCheck (send_chunks off s) = lastCheck s"
  "lowMemCount (send_chunks off s) = lowMemCount s"
  "lastMemCheck (send_chunks off s) = lastMemCheck s"
  by (induction off s rule: send_chunks.induct;
      subst send_chunks.simps; simp add: binaryAll_def Let_def)+

lemma map_upt_take:
  "off < L \<Longrightarrow> map f [off ..< off + min n (L - off)] = take n (map f [off ..< L])"
  by (cases "n \<le> L - off") (simp_all add: take_map min_def)

lemma send_chunks_wsBrowser:
  "wsBrowser (send_chunks off s) =
     wsBrowser s @ map BinaryAll
       (split_chunks CHUNK_SIZE (map (fb_data (frameBuffer s)) [off ..< fb_length (frameBuffer s)]))"
proof (induction off s rule: send_chunks.induct)
  case (1 off s)
  show ?case
  proof (cases "off < fb_length (frameBuffer s)")
    case True
    let ?L = "fb_length (frameBuffer s)"
    let ?f = "fb_data (frameBuffer s)"
    let ?c = "min CHUNK_SIZE (?L - off)"
    have fb: "frameBuffer (binaryAll off ?c s) = frameBuffer s"
      by (simp add: binaryAll_def)
    have ws: "wsBrowser (binaryAll off ?c s) = wsBrowser s @ [BinaryAll (map ?f [off ..< off + ?c])]"
      by (simp add: binaryAll_def)
    have ne: "map ?f [off ..< ?L] \<noteq> []" using True by simp
    have sp: "split_chunks CHUNK_SIZE (map ?f [off ..< ?L]) =
        take CHUNK_SIZE (map ?f [off ..< ?L]) # split_chunks CHUNK_SIZE (map ?f [off + CHUNK_SIZE ..< ?L])"
      using ne by (subst split_chunks.simps) (simp add: CHUNK_SIZE_def drop_map add.commute)
    have "wsBrowser (send_chunks off s) = wsBrowser (send_chunks (off + CHUNK_SIZE) (binaryAll off ?c s))"
      using True by (subst send_chunks.simps) (simp add: Let_def)
    also have "\<dots> = wsBrowser (binaryAll off ?c s) @ map BinaryAll
        (split_chunks CHUNK_SIZE (map ?f [off + CHUNK_SIZE ..< ?L]))"
      using "1.IH" [OF True refl] fb by simp
    finally show ?thesis
      using True by (simp add: ws sp map_upt_take)
  next
    case False
    then show ?thesis
      by (subst send_chunks.simps, subst split_chunks.simps) simp
  qed
qed

lemma split_chunks_concat: "0 < n \<Longrightarrow> concat (split_chunks n xs) = xs"
  by (induction n xs rule: split_chunks.induct) (subst split_chunks.simps, simp)

lemma chunk_count_step:
  assumes "0 < n" and "0 < (m::nat)"
  shows "Suc ((m - n + n - 1) div n) = (m + n - 1) div n"
proof -
  have e: "m + n - 1 = (m - 1) + n" using assms(2) by arith
  have s: "((m - 1) + n) div n = Suc ((m - 1) div n)" using assms(1) div_add_self2 [of n "m - 1"] by simp
  have r: "(m + n - 1) div n = Suc ((m - 1) div n)" by (simp only: e s)
  show ?thesis
  proof (cases "n \<le> m")
    case True
    have "m - n + n - 1 = m - 1" using True by arith
    then show ?thesis by (simp only: r)
  next
    case False
    have "m - n + n - 1 = n - 1" using False by arith
    moreover have "(n - 1) div n = 0" using assms(1) by (intro div_less) arith
    moreover have "(m - 1) div n = 0" using False assms by (intro div_less) arith
    ultimately show ?thesis by (simp only: r)
  qed
qed

lemma split_chunks_length: "0 < n \<Longrightarrow> length (split_chunks n xs) = (length xs + n - 1) div n"
proof (induction n xs rule: split_chunks.induct)
  case (1 n xs)
  show ?case
  proof (cases "xs = []")
    case True
    then show ?thesis using "1.prems" by (subst split_chunks.simps) simp
  next
    case False
    have eq: "split_chunks n xs = take n xs # split_chunks n (drop n xs)"
      using False "1.prems" by (subst split_chunks.simps) simp
    have ih: "length (split_chunks n (drop n xs)) = (length xs - n + n - 1) div n"
      using "1.IH" "1.prems" False by simp
    have "0 < length xs" using False by simp
    from chunk_count_step [OF "1.prems" this] show ?thesis
      by (simp add: eq ih)
  qed
qed

lemma split_chunks_nth:
  "0 < n \<Longrightarrow> i < length (split_chunks n xs) \<Longrightarrow> split_chunks n xs ! i = take n (drop (i * n) xs)"
proof (induction n xs arbitrary: i rule: split_chunks.induct)
  case (1 n xs)
  show ?case
  proof (cases "xs = []")
    case True
    then show ?thesis using "1.prems" by (subst (asm) split_chunks.simps) simp
  next
    case False
    have eq: "split_chunks n xs = take n xs # split_chunks n (drop n xs)"
      using False "1.prems"(1) by (subst split_chunks.simps) simp
    show ?thesis
    proof (cases i)
      case 0
      then show ?thesis by (simp add: eq)
    next
      case (Suc j)
      then have "j < length (split_chunks n (drop n xs))" using "1.prems"(2) eq by simp
      then have "split_chunks n (drop n xs) ! j = take n (drop (j * n) (drop n xs))"
        using "1.IH" "1.prems"(1) False by simp
      then show ?thesis using Suc by (simp add: eq add.commute)
    qed
  qed
qed

subsection \<open>The binary branch of handleWebSocketMessage\<close>

lemma memcpy_map: "map (memcpy old d (length d)) [0 ..< length d] = d"
  by (rule nth_equalityI) (simp_all add: memcpy_def)

lemma handle_binary:
  assumes "message r = BinaryMessage d"
  shows "handleWebSocketMessage lib r c s =
    (if available r \<and> MAX_FRAME_SIZE + 1024 \<le> unat (freeHeap r) \<and> length d \<le> MAX_FRAME_SIZE then
       (let s1 = s\<lparr>frameBuffer := \<lparr>fb_data = memcpy (fb_data (frameBuffer s)) d (length d),
                                   fb_length = length d\<rparr>\<rparr>
        in if 12 < length d \<and> (d ! 12 = 1 \<or> d ! 12 = 2) \<and> cameraId c \<noteq> uint (d ! 12)
           then (True, c\<lparr>cameraId := uint (d ! 12)\<rparr>,
                 send_chunks 0 (textAll (statusMsg (uint (d ! 12)) ''connected'')
                                  (textAll (statusMsg (cameraId c) ''disconnected'') s1)))
           else (True, c, send_chunks 0 s1))
     else (False, c, s))"
  using assms
  by (simp add: handleWebSocketMessage_def Let_def SIZE_def memcpy_def not_le not_less)

lemma handle_binary_emitted:
  assumes "message r = BinaryMessage d"
      and "handleWebSocketMessage lib r c s = (ok, c', s')"
  shows "emitted s s' =
      (if available r \<and> MAX_FRAME_SIZE + 1024 \<le> unat (freeHeap r) \<and> length d \<le> MAX_FRAME_SIZE
          \<and> 12 < length d \<and> (d ! 12 = 1 \<or> d ! 12 = 2) \<and> cameraId c \<noteq> uint (d ! 12)
       then [TextAll (statusMsg (cameraId c) ''disconnected''),
             TextAll (statusMsg (uint (d ! 12)) ''connected'')]
       else []) @
      (if available r \<and> MAX_FRAME_SIZE + 1024 \<le> unat (freeHeap r) \<and> length d \<le> MAX_FRAME_SIZE
       then map BinaryAll (split_chunks CHUNK_SIZE d) else [])"
  using assms(2) unfolding handle_binary [OF assms(1)]
  by (auto simp: Let_def emitted_def send_chunks_wsBrowser textAll_def memcpy_map split: if_splits)

lemma binary_payloads_append:
  "binary_payloads (xs @ ys) = binary_payloads xs @ binary_payloads ys"
  by (induction xs rule: binary_payloads.induct) simp_all

lemma binary_payloads_map [simp]: "binary_payloads (map BinaryAll cs) = cs"
  by (induction cs) simp_all

lemma text_payloads_append:
  "text_payloads (xs @ ys) = text_payloads xs @ text_payloads ys"
  by (induction xs rule: text_payloads.induct) simp_all

lemma text_payloads_map [simp]: "text_payloads (map BinaryAll cs) = []"
  by (induction cs) simp_all

subsection \<open>Chunked forwarding of a frame\<close>

text \<open>
  Claim C7. For every accepted binary frame of length \<open>L\<close> with \<open>0 < L \<le> MAX_FRAME_SIZE\<close>
  (read while the connection is available and the free heap is at least
  \<open>MAX_FRAME_SIZE + 1024\<close>), the handler succeeds and pushes exactly
  \<open>\<lceil>L / 8192\<rceil>\<close> binary chunks; the \<open>i\<close>-th chunk is the 8192 bytes of the frame
  from offset \<open>8192 * i\<close> (fewer in the last chunk), and the chunks concatenated in
  send order are the frame.
\<close>

theorem chunked_forwarding:
  assumes "available r" and "MAX_FRAME_SIZE + 1024 \<le> unat (freeHeap r)"
      and "message r = BinaryMessage d" and "0 < length d" and "length d \<le> MAX_FRAME_SIZE"
      and "handleWebSocketMessage lib r c s = (ok, c', s')"
  shows "ok \<and>
     (let chunks = binary_payloads (emitted s s');
          n = (length d + CHUNK_SIZE - 1) div CHUNK_SIZE
      in length chunks = n \<and>
         (\<forall>i<n. chunks ! i = take CHUNK_SIZE (drop (i * CHUNK_SIZE) d) \<and>
                length (chunks ! i) = (if Suc i < n then CHUNK_SIZE else length d - i * CHUNK_SIZE)) \<and>
         concat chunks = d)"
proof -
  have pos: "0 < CHUNK_SIZE" by (simp add: CHUNK_SIZE_def)
  have ok: "ok"
    using assms(1,2,5,6) unfolding handle_binary [OF assms(3)]
    by (auto simp: Let_def split: if_splits)
  have chunks: "binary_payloads (emitted s s') = split_chunks CHUNK_SIZE d"
    using assms(1,2,5) unfolding handle_binary_emitted [OF assms(3,6)]
    by (simp add: binary_payloads_append)
  have len: "length (split_chunks CHUNK_SIZE d) = (length d + CHUNK_SIZE - 1) div CHUNK_SIZE"
    by (rule split_chunks_length [OF pos])
  have nth: "split_chunks CHUNK_SIZE d ! i = take CHUNK_SIZE (drop (i * CHUNK_SIZE) d)"
    if "i < (length d + CHUNK_SIZE - 1) div CHUNK_SIZE" for i
    using split_chunks_nth [OF pos, of i d] that len by simp
  have sz: "length (take CHUNK_SIZE (drop (i * CHUNK_SIZE) d)) =
      (if Suc i < (length d + CHUNK_SIZE - 1) div CHUNK_SIZE then CHUNK_SIZE
       else length d - i * CHUNK_SIZE)"
    if "i < (length d + CHUNK_SIZE - 1) div CHUNK_SIZE" for i
    using that assms(5) by (auto simp: CHUNK_SIZE_def MAX_FRAME_SIZE_def)
  show ?thesis
    using ok len nth sz split_chunks_concat [OF pos, of d]
    by (simp add: chunks Let_def)
qed

text \<open>
  The theorem at a frame of 8200 bytes: two chunks, of 8192 and of 8 bytes.
\<close>

theorem chunked_forwarding_witness:
  "let d = replicate 8200 (7::u8);
       r = \<lparr>available = True, freeHeap = 50000, message = BinaryMessage d\<rparr>;
       c = \<lparr>client = 0, cameraId = 1, lastActivity = 0\<rparr>;
       s' = snd (snd (handleWebSocketMessage example_lib r c init_server));
       chunks = binary_payloads (emitted init_server s')
   in available r \<and> MAX_FRAME_SIZE + 1024 \<le> unat (freeHeap r) \<and> 0 < length d
      \<and> length d \<le> MAX_FRAME_SIZE
      \<and> length chunks = 2 \<and> chunks ! 0 = replicate 8192 7 \<and> chunks ! 1 = replicate 8 7
      \<and> concat chunks = d"
proof -
  define d where "d = replicate 8200 (7::u8)"
  define r where "r = \<lparr>available = True, freeHeap = 50000, message = BinaryMessage d\<rparr>"
  define c where "c = \<lparr>client = 0, cameraId = 1, lastActivity = 0\<rparr>"
  define X where "X = handleWebSocketMessage example_lib r c init_server"
  have h1: "available r" by (simp add: r_def)
  have h2: "MAX_FRAME_SIZE + 1024 \<le> unat (freeHeap r)" by (simp add: r_def MAX_FRAME_SIZE_def)
  have h3: "message r = BinaryMessage d" by (simp add: r_def)
  have h4: "0 < length d" by (simp add: d_def)
  have h5: "length d \<le> MAX_FRAME_SIZE" by (simp add: d_def MAX_FRAME_SIZE_def)
  have h6: "handleWebSocketMessage example_lib r c init_server = (fst X, fst (snd X), snd (snd X))"
    by (simp add: X_def)
  have n: "(length d + CHUNK_SIZE - 1) div CHUNK_SIZE = 2" by (simp add: d_def CHUNK_SIZE_def)
  note th = chunked_forwarding [OF h1 h2 h3 h4 h5 h6, unfolded Let_def n]
  have "length (binary_payloads (emitted init_server (snd (snd X)))) = 2"
    using th by simp
  moreover have "binary_payloads (emitted init_server (snd (snd X))) ! 0 = replicate 8192 7"
    using th by (simp add: d_def CHUNK_SIZE_def)
  moreover have "binary_payloads (emitted init_server (snd (snd X))) ! 1 = replicate 8 7"
    using th by (simp add: d_def CHUNK_SIZE_def)
  moreover have "concat (binary_payloads (emitted init_server (snd (snd X)))) = d"
    using th by simp
  ultimately show ?thesis
    using h1 h2 h4 h5 unfolding Let_def d_def [symmetric] r_def [symmetric] c_def [symmetric]
      X_def [symmetric]
    by simp
qed

subsection \<open>Evaluation of the examples\<close>

lemma String_int_examples:
  "String_int (- 1) = ''-1''" "String_int 1 = ''1''" "String_int 2 = ''2''"
  by (simp_all add: String_int_def dec_digits.simps)

lemma upt_MAX_CLIENTS: "[0 ..< MAX_CLIENTS] = [0, 1]"
  by (simp add: MAX_CLIENTS_def numeral_2_eq_2)

lemma init_server_table: "camClients init_server = [None, None]"
  by (simp add: init_server_def MAX_CLIENTS_def numeral_2_eq_2)

lemma first_admission:
  "addCameraClient conn 50000 now init_server =
     (True, init_server\<lparr>camClients := [Some (new_CameraClient conn (- 1) now), None],
                        activeClients := 1\<rparr>)"
  by (simp add: addCameraClient_def upt_MAX_CLIENTS init_server_table MAX_FRAME_SIZE_def)
     (simp add: init_server_def MAX_CLIENTS_def)

lemma ready_simps [simp]:
  "available (ready m)" "freeHeap (ready m) = 50000" "message (ready m) = m"
  by (simp_all add: ready_def)

lemma ready_heap: "MAX_FRAME_SIZE + 1024 \<le> unat (freeHeap (ready m))"
  by (simp add: MAX_FRAME_SIZE_def)

lemma tagged_frame_simps [simp]:
  "length (tagged_frame tag) = 13" "tagged_frame tag ! 12 = tag" "tagged_frame tag \<noteq> []"
  by (simp_all add: tagged_frame_def)

lemma handle_result:
  "handleWebSocketMessage lib r c s =
     (fst (handleWebSocketMessage lib r c s), fst (snd (handleWebSocketMessage lib r c s)),
      snd (snd (handleWebSocketMessage lib r c s)))"
  by simp

lemma split_chunks_single:
  "0 < n \<Longrightarrow> xs \<noteq> [] \<Longrightarrow> length xs \<le> n \<Longrightarrow> split_chunks n xs = [xs]"
  by (subst split_chunks.simps, subst split_chunks.simps) simp

lemma loop_body_failed:
  assumes "camClients s ! i = Some c" and "handleWebSocketMessage lib r c s = (False, c, s)"
  shows "loop_body lib t r i s =
           (if t - lastActivity c > CLIENT_TIMEOUT then removeCameraClient i s else s)"
proof -
  have "(camClients s)[i := Some c] = camClients s"
    using list_update_id [of "camClients s" i] by (simp add: assms(1))
  then show ?thesis
    using assms by (simp add: loop_body_def Let_def)
qed

subsection \<open>Identity reassignment\<close>

text \<open>
  Claim C1, as amended. Let a binary frame be handled on a slot. If the connection is
  available, the free heap is at least \<open>MAX_FRAME_SIZE + 1024\<close>, the frame has between
  13 and \<open>MAX_FRAME_SIZE\<close> bytes, its byte at offset 12 is 0x01 or 0x02 and differs from
  the slot's identity, then the handler pushes exactly two text events: a
  \<open>disconnected\<close> status carrying the slot's old identity value (the value -1 when
  none was assigned yet), then a \<open>connected\<close> status carrying the tag, and the slot's
  identity becomes the tag. In every other case a binary frame pushes no text event
  and leaves the identity as it is. The text events precede the chunks of the frame.
\<close>

theorem identity_reassignment:
  assumes "message r = BinaryMessage d"
      and "handleWebSocketMessage lib r c s = (ok, c', s')"
  shows "text_payloads (emitted s s') =
           (if available r \<and> MAX_FRAME_SIZE + 1024 \<le> unat (freeHeap r)
               \<and> 12 < length d \<and> length d \<le> MAX_FRAME_SIZE
               \<and> (d ! 12 = 0x01 \<or> d ! 12 = 0x02) \<and> cameraId c \<noteq> uint (d ! 12)
            then [statusMsg (cameraId c) ''disconnected'', statusMsg (uint (d ! 12)) ''connected'']
            else [])
       \<and> cameraId c' =
           (if available r \<and> MAX_FRAME_SIZE + 1024 \<le> unat (freeHeap r)
               \<and> 12 < length d \<and> length d \<le> MAX_FRAME_SIZE
               \<and> (d ! 12 = 0x01 \<or> d ! 12 = 0x02) \<and> cameraId c \<noteq> uint (d ! 12)
            then uint (d ! 12) else cameraId c)
       \<and> emitted s s' =
           map TextAll (text_payloads (emitted s s')) @ map BinaryAll (binary_payloads (emitted s s'))"
proof -
  have id: "cameraId c' =
           (if available r \<and> MAX_FRAME_SIZE + 1024 \<le> unat (freeHeap r)
               \<and> 12 < length d \<and> length d \<le> MAX_FRAME_SIZE
               \<and> (d ! 12 = 0x01 \<or> d ! 12 = 0x02) \<and> cameraId c \<noteq> uint (d ! 12)
            then uint (d ! 12) else cameraId c)"
    using assms(2) unfolding handle_binary [OF assms(1)]
    by (auto simp: Let_def split: if_splits)
  show ?thesis
    unfolding handle_binary_emitted [OF assms] using id
    by (auto simp: text_payloads_append binary_payloads_append)
qed

text \<open>
  The theorem on a slot tagged camera 1 that receives a frame tagged 0x02.
\<close>

theorem identity_reassignment_witness:
  "text_payloads (emitted init_server (snd (snd (handleWebSocketMessage example_lib
       (ready (BinaryMessage (tagged_frame 2)))
       \<lparr>client = 7, cameraId = 1, lastActivity = 0\<rparr> init_server)))) =
     [''{\"type\":\"status\",\"camera\":1,\"status\":\"disconnected\"}'',
      ''{\"type\":\"status\",\"camera\":2,\"status\":\"connected\"}'']
   \<and> cameraId (fst (snd (handleWebSocketMessage example_lib
       (ready (BinaryMessage (tagged_frame 2)))
       \<lparr>client = 7, cameraId = 1, lastActivity = 0\<rparr> init_server))) = 2"
  using identity_reassignment [where d = "tagged_frame 2" and lib = example_lib and s = init_server
      and c = "\<lparr>client = 7, cameraId = 1, lastActivity = 0\<rparr>", OF ready_simps(3) handle_result]
  by (simp add: MAX_FRAME_SIZE_def statusMsg_def String_int_examples)

text \<open>
  Claim C1 as stated fails: a slot that never had an identity (its identity is the -1
  of the constructor call in \<open>addCameraClient\<close>) receives a frame tagged 0x01, and
  a \<open>disconnected\<close> event carrying -1 is pushed before the \<open>connected\<close> event.
\<close>

theorem unassigned_slot_disconnected_event:
  "cameraId (new_CameraClient 7 (- 1) 0) = - 1 \<and>
   emitted init_server (snd (snd (handleWebSocketMessage example_lib
       (ready (BinaryMessage (tagged_frame 1))) (new_CameraClient 7 (- 1) 0) init_server))) =
     [TextAll ''{\"type\":\"status\",\"camera\":-1,\"status\":\"disconnected\"}'',
      TextAll ''{\"type\":\"status\",\"camera\":1,\"status\":\"connected\"}'',
      BinaryAll (tagged_frame 1)]"
proof -
  have "split_chunks CHUNK_SIZE (tagged_frame 1) = [tagged_frame 1]"
    by (rule split_chunks_single) (simp_all add: CHUNK_SIZE_def)
  then show ?thesis
    using handle_binary_emitted [where d = "tagged_frame 1" and lib = example_lib
      and c = "new_CameraClient 7 (- 1) 0" and s = init_server, OF ready_simps(3) handle_result]
    by (simp add: new_CameraClient_def MAX_FRAME_SIZE_def statusMsg_def String_int_examples)
qed

subsection \<open>Eviction\<close>

text \<open>
  Claim C8, as amended. Evicting an occupied slot pushes exactly one \<open>disconnected\<close>
  status carrying the slot's identity value, whatever it is (-1 when no identity was
  assigned), empties the slot and decrements the occupancy counter; evicting an empty
  slot, or an index outside the table, changes nothing.
\<close>

theorem eviction_notification:
  "removeCameraClient i s =
     (if i < MAX_CLIENTS \<and> camClients s ! i \<noteq> None
      then s\<lparr>wsBrowser := wsBrowser s @
                [TextAll (statusMsg (cameraId (the (camClients s ! i))) ''disconnected'')],
             camClients := (camClients s)[i := None],
             activeClients := activeClients s - 1\<rparr>
      else s)"
  by (auto simp: removeCameraClient_def textAll_def Let_def split: option.splits)

text \<open>
  Claim C8 as stated fails: evicting a slot that was admitted and never tagged pushes
  a \<open>disconnected\<close> status carrying -1.
\<close>

theorem unassigned_slot_eviction_event:
  "map_option cameraId (camClients (snd (addCameraClient 7 50000 0 init_server)) ! 0) = Some (- 1) \<and>
   emitted (snd (addCameraClient 7 50000 0 init_server))
     (removeCameraClient 0 (snd (addCameraClient 7 50000 0 init_server))) =
     [TextAll ''{\"type\":\"status\",\"camera\":-1,\"status\":\"disconnected\"}'']"
  by (simp add: first_admission removeCameraClient_def MAX_CLIENTS_def textAll_def emitted_def
      new_CameraClient_def statusMsg_def String_int_examples)

subsection \<open>Unrecognised text messages\<close>

text \<open>
  Claim C9, as amended. A text message that does not contain the literal
  \<open>"type":"motion"\<close>, read while the connection is available and the free heap is at
  least \<open>MAX_FRAME_SIZE + 1024\<close>, is accepted: the handler returns true and pushes
  nothing, and the pass of \<open>loop()\<close> only stamps the slot's \<open>lastActivity\<close> (the slot
  is not evicted).
\<close>

theorem unrecognised_text_not_forwarded:
  assumes "available r" and "MAX_FRAME_SIZE + 1024 \<le> unat (freeHeap r)"
      and "message r = TextMessage d" and "\<nexists>a b. d = a @ motion_marker @ b"
  shows "handleWebSocketMessage lib r c s = (True, c, s) \<and>
         (camClients s ! i = Some c \<longrightarrow>
            loop_body lib t r i s =
              s\<lparr>camClients := (camClients s)[i := Some (c\<lparr>lastActivity := t\<rparr>)]\<rparr>)"
proof -
  have "\<not> 0 \<le> indexOf d motion_marker"
    using assms(4) by (simp add: indexOf_iff)
  then have h: "handleWebSocketMessage lib r c s = (True, c, s)"
    using assms(1-3) by (simp add: handleWebSocketMessage_def)
  then show ?thesis
    by (simp add: loop_body_def)
qed

text \<open>
  The theorem on the text \<open>CAMERA_RECONNECTED\<close>, which the camera firmware sends after
  a reconnect.
\<close>

theorem unrecognised_text_not_forwarded_witness:
  "(\<nexists>a b. ''CAMERA_RECONNECTED'' = a @ motion_marker @ b) \<and>
   handleWebSocketMessage example_lib (ready (TextMessage ''CAMERA_RECONNECTED''))
       (new_CameraClient 7 (- 1) 0) (snd (addCameraClient 7 50000 0 init_server)) =
     (True, new_CameraClient 7 (- 1) 0, snd (addCameraClient 7 50000 0 init_server)) \<and>
   loop_body example_lib 5000 (ready (TextMessage ''CAMERA_RECONNECTED'')) 0
       (snd (addCameraClient 7 50000 0 init_server)) =
     (snd (addCameraClient 7 50000 0 init_server))
       \<lparr>camClients := [Some (new_CameraClient 7 (- 1) 5000), None]\<rparr>"
proof -
  have "indexOf ''CAMERA_RECONNECTED'' motion_marker < 0"
    by (simp add: indexOf_def motion_marker_def)
  then have ix: "\<nexists>a b. ''CAMERA_RECONNECTED'' = a @ motion_marker @ b"
    by (simp add: indexOf_iff [symmetric])
  have slot: "camClients (snd (addCameraClient 7 50000 0 init_server)) ! 0 =
      Some (new_CameraClient 7 (- 1) 0)"
    by (simp add: first_admission)
  have upd: "(camClients (snd (addCameraClient 7 50000 0 init_server)))
      [0 := Some ((new_CameraClient 7 (- 1) 0)\<lparr>lastActivity := 5000\<rparr>)] =
      [Some (new_CameraClient 7 (- 1) 5000), None]"
    by (simp add: first_admission new_CameraClient_def)
  show ?thesis
    using unrecognised_text_not_forwarded [OF ready_simps(1) ready_heap ready_simps(3) ix,
        of example_lib "new_CameraClient 7 (- 1) 0" "snd (addCameraClient 7 50000 0 init_server)" 0 5000]
      ix slot
    by (simp add: upd)
qed

text \<open>
  Claim C9 as stated fails: the object \<open>{"type":"motion"}\<close> has no \<open>detected\<close>
  member, so it is not of the motion-event shape, yet it contains the literal and is
  forwarded with the slot's identity added.
\<close>

theorem bare_motion_text_forwarded:
  "doc_member (deserializeJson example_lib motion_text_bare) ''detected'' = None \<and>
   handleWebSocketMessage example_lib (ready (TextMessage motion_text_bare))
       \<lparr>client = 7, cameraId = 1, lastActivity = 0\<rparr> init_server =
     (True, \<lparr>client = 7, cameraId = 1, lastActivity = 0\<rparr>,
      init_server\<lparr>wsBrowser := [TextAll ''{\"type\":\"motion\",\"camera\":1}'']\<rparr>)"
proof -
  have p: "example_parse motion_text_bare = JObj [(''type'', JStr ''motion'')]"
    by (simp add: example_parse_def motion_text_bare_def motion_text_def motion_text_camera_def)
  have ix: "indexOf motion_text_bare motion_marker \<ge> 0"
    by (simp add: indexOf_def motion_marker_def motion_text_bare_def)
  show ?thesis
    using ix
    by (simp add: handleWebSocketMessage_def example_lib_def p textAll_def Let_def
        String_int_examples not_less MAX_FRAME_SIZE_def)
       (simp add: init_server_def)
qed

subsection \<open>The text branch of handleWebSocketMessage\<close>

lemma map_of_set_member_same: "map_of (set_member k v kvs) k = Some v"
  by (induction kvs) auto

lemma differ_only_at_set_member:
  "differ_only_at k xs ys \<Longrightarrow> set_member k v xs = set_member k v ys"
  by (induction k xs ys rule: differ_only_at.induct) (auto split: if_splits)

lemma handle_text:
  assumes "message r = TextMessage d"
  shows "handleWebSocketMessage lib r c s =
    (if available r \<and> MAX_FRAME_SIZE + 1024 \<le> unat (freeHeap r) then
       (if 0 \<le> indexOf d motion_marker
        then (True, c, textAll (serializeJson lib
                 (doc_assign (deserializeJson lib d) ''camera'' (JInt (cameraId c)))) s)
        else (True, c, s))
     else (False, c, s))"
  using assms by (simp add: handleWebSocketMessage_def Let_def not_less)

lemma handle_other:
  assumes "message r = OtherMessage"
  shows "handleWebSocketMessage lib r c s = (False, c, s)"
  using assms by (simp add: handleWebSocketMessage_def)

lemma handle_identity_change:
  assumes "handleWebSocketMessage lib r c s = (ok, c', s')" and "cameraId c' \<noteq> cameraId c"
  shows "\<exists>d. message r = BinaryMessage d \<and> 12 < length d \<and> length d \<le> MAX_FRAME_SIZE
            \<and> (d ! 12 = 0x01 \<or> d ! 12 = 0x02) \<and> cameraId c' = uint (d ! 12)"
proof (cases "message r")
  case (TextMessage d)
  then show ?thesis using assms by (auto simp: handle_text split: if_splits)
next
  case (BinaryMessage d)
  then show ?thesis using assms by (auto simp: handle_binary Let_def split: if_splits)
next
  case OtherMessage
  then show ?thesis using assms by (auto simp: handle_other)
qed

lemma addCameraClient_success:
  assumes "addCameraClient conn heap now s = (True, s')"
  shows "\<exists>i<MAX_CLIENTS. camClients s ! i = None \<and> (\<forall>j<i. camClients s ! j \<noteq> None) \<and>
           s' = s\<lparr>camClients := (camClients s)[i := Some (new_CameraClient conn (- 1) now)],
                  activeClients := activeClients s + 1\<rparr>"
proof (cases "camClients s ! 0 = None")
  case True
  then have "s' = s\<lparr>camClients := (camClients s)[0 := Some (new_CameraClient conn (- 1) now)],
                  activeClients := activeClients s + 1\<rparr>"
    using assms by (simp add: addCameraClient_def upt_MAX_CLIENTS split: if_splits)
  then show ?thesis using True by (intro exI [of _ 0]) (simp add: MAX_CLIENTS_def)
next
  case False
  then have "camClients s ! 1 = None \<and>
      s' = s\<lparr>camClients := (camClients s)[1 := Some (new_CameraClient conn (- 1) now)],
                  activeClients := activeClients s + 1\<rparr>"
    using assms by (simp add: addCameraClient_def upt_MAX_CLIENTS split: if_splits)
  then show ?thesis using False by (intro exI [of _ 1]) (simp add: MAX_CLIENTS_def)
qed

lemma example_parse_simps:
  "example_parse motion_text = JObj [(''type'', JStr ''motion''), (''detected'', JBool True)]"
  "example_parse (motion_text_camera 1) =
     JObj [(''type'', JStr ''motion''), (''camera'', JInt 1), (''detected'', JBool True)]"
  "example_parse (motion_text_camera 2) =
     JObj [(''type'', JStr ''motion''), (''camera'', JInt 2), (''detected'', JBool True)]"
  by (simp_all add: example_parse_def motion_text_def motion_text_camera_def String_int_examples)

lemma example_lib_simps [simp]:
  "deserializeJson example_lib = example_parse" "serializeJson example_lib = show_json"
  by (simp_all add: example_lib_def)

lemma motion_texts_recognised:
  "0 \<le> indexOf motion_text motion_marker"
  "0 \<le> indexOf (motion_text_camera 1) motion_marker"
  "0 \<le> indexOf (motion_text_camera 2) motion_marker"
  by (simp_all add: indexOf_def motion_marker_def motion_text_def motion_text_camera_def)

subsection \<open>The slot table and its counter\<close>

lemma filter_update_count:
  "i < length xs \<Longrightarrow>
     length (filter P (xs[i := v])) + (if P (xs ! i) then 1 else 0) =
     length (filter P xs) + (if P v then 1 else 0)"
proof (induction xs arbitrary: i)
  case Nil
  then show ?case by simp
next
  case (Cons x xs)
  show ?case
  proof (cases i)
    case 0
    then show ?thesis by simp
  next
    case (Suc j)
    then have "j < length xs" using Cons.prems by simp
    from Cons.IH [OF this] show ?thesis using Suc by simp
  qed
qed

lemma occupied_fill:
  assumes "i < length (camClients s)" and "camClients s ! i = None"
  shows "occupied (s\<lparr>camClients := (camClients s)[i := Some c], activeClients := a\<rparr>) = Suc (occupied s)"
  using filter_update_count [OF assms(1), of "\<lambda>x. x \<noteq> None" "Some c"] assms(2)
  by (simp add: occupied_def)

lemma occupied_clear:
  assumes "i < length (camClients s)" and "camClients s ! i \<noteq> None"
  shows "Suc (occupied (s\<lparr>camClients := (camClients s)[i := None], activeClients := a\<rparr>)) = occupied s"
  using filter_update_count [OF assms(1), of "\<lambda>x. x \<noteq> None" None] assms(2)
  by (simp add: occupied_def)

lemma occupied_replace:
  assumes "i < length (camClients s)" and "camClients s ! i \<noteq> None"
  shows "occupied (s\<lparr>camClients := (camClients s)[i := Some c]\<rparr>) = occupied s"
  using filter_update_count [OF assms(1), of "\<lambda>x. x \<noteq> None" "Some c"] assms(2)
  by (simp add: occupied_def)

lemma occupied_le_length: "occupied s \<le> length (camClients s)"
  by (simp add: occupied_def)

lemma consistent_init: "consistent init_server"
  by (simp add: consistent_def init_server_def occupied_def)

lemma consistent_fill:
  assumes "consistent s" and "i < MAX_CLIENTS" and "camClients s ! i = None"
  shows "consistent (s\<lparr>camClients := (camClients s)[i := Some c],
                       activeClients := activeClients s + 1\<rparr>)"
proof -
  have len: "i < length (camClients s)" using assms(1,2) by (simp add: consistent_def)
  have occ: "occupied (s\<lparr>camClients := (camClients s)[i := Some c],
      activeClients := activeClients s + 1\<rparr>) = Suc (occupied s)"
    by (rule occupied_fill [OF len assms(3)])
  have "occupied s < MAX_CLIENTS"
    using occ occupied_le_length [of "s\<lparr>camClients := (camClients s)[i := Some c],
      activeClients := activeClients s + 1\<rparr>"] assms(1)
    by (simp add: consistent_def)
  then have "unat (activeClients s) < 2"
    using assms(1) by (simp add: consistent_def MAX_CLIENTS_def)
  then have "unat (activeClients s + 1) = Suc (unat (activeClients s))"
    by (simp add: unat_word_ariths)
  then show ?thesis
    using assms(1) occ by (simp add: consistent_def)
qed

lemma consistent_clear:
  assumes "consistent s" and "i < MAX_CLIENTS" and "camClients s ! i \<noteq> None"
  shows "consistent (s\<lparr>camClients := (camClients s)[i := None],
                       activeClients := activeClients s - 1\<rparr>)"
proof -
  have len: "i < length (camClients s)" using assms(1,2) by (simp add: consistent_def)
  have occ: "Suc (occupied (s\<lparr>camClients := (camClients s)[i := None],
      activeClients := activeClients s - 1\<rparr>)) = occupied s"
    by (rule occupied_clear [OF len assms(3)])
  then have "unat (activeClients s) \<noteq> 0"
    using assms(1) by (simp add: consistent_def)
  then have "activeClients s \<noteq> 0" by (auto simp: unat_eq_0)
  then have "unat (activeClients s - 1) = unat (activeClients s) - 1"
    by (rule unat_minus_one)
  then show ?thesis
    using assms(1) occ by (simp add: consistent_def)
qed

lemma consistent_replace:
  assumes "consistent s" and "i < MAX_CLIENTS" and "camClients s ! i \<noteq> None"
  shows "consistent (s\<lparr>camClients := (camClients s)[i := Some c]\<rparr>)"
proof -
  have len: "i < length (camClients s)" using assms(1,2) by (simp add: consistent_def)
  show ?thesis
    using assms(1) occupied_replace [OF len assms(3), of c] by (simp add: consistent_def)
qed

lemma consistent_other:
  "consistent (s\<lparr>wsBrowser := w\<rparr>) = consistent s"
  "consistent (s\<lparr>frameBuffer := f\<rparr>) = consistent s"
  "consistent (s\<lparr>lastCheck := t\<rparr>) = consistent s"
  "consistent (s\<lparr>lowMemCount := n\<rparr>) = consistent s"
  "consistent (s\<lparr>lastMemCheck := t\<rparr>) = consistent s"
  by (simp_all add: consistent_def occupied_def)

subsection \<open>Every operation keeps the table consistent\<close>

lemma removeCameraClient_cases:
  "removeCameraClient i s =
     (if i < MAX_CLIENTS \<and> camClients s ! i \<noteq> None
      then s\<lparr>wsBrowser := wsBrowser s @
                [TextAll (statusMsg (cameraId (the (camClients s ! i))) ''disconnected'')],
             camClients := (camClients s)[i := None],
             activeClients := activeClients s - 1\<rparr>
      else s)"
  by (auto simp: removeCameraClient_def textAll_def Let_def split: option.splits)

lemma consistent_removeCameraClient:
  assumes "consistent s"
  shows "consistent (removeCameraClient i s)"
proof (cases "i < MAX_CLIENTS \<and> camClients s ! i \<noteq> None")
  case True
  have "consistent (s\<lparr>wsBrowser := wsBrowser s @
                [TextAll (statusMsg (cameraId (the (camClients s ! i))) ''disconnected'')]\<rparr>)"
    using assms by (simp add: consistent_other)
  from consistent_clear [OF this] True show ?thesis
    by (simp add: removeCameraClient_cases)
next
  case False
  then have "removeCameraClient i s = s"
    by (subst removeCameraClient_cases) (simp only: if_False)
  then show ?thesis using assms by simp
qed

lemma addCameraClient_failure:
  assumes "addCameraClient conn heap now s = (False, s')"
  shows "s' = s"
  using assms by (simp add: addCameraClient_def upt_MAX_CLIENTS split: if_splits)

lemma consistent_addCameraClient:
  assumes "consistent s"
  shows "consistent (snd (addCameraClient conn heap now s))"
proof (cases "fst (addCameraClient conn heap now s)")
  case True
  then have "addCameraClient conn heap now s = (True, snd (addCameraClient conn heap now s))"
    by (metis prod.collapse)
  from addCameraClient_success [OF this] consistent_fill [OF assms] show ?thesis
    by auto
next
  case False
  then have "addCameraClient conn heap now s = (False, snd (addCameraClient conn heap now s))"
    by (metis prod.collapse)
  from addCameraClient_failure [OF this] assms show ?thesis by simp
qed

lemma addCameraClient_full:
  assumes "consistent s" and "occupied s = MAX_CLIENTS"
  shows "addCameraClient conn heap now s = (False, s)"
  using assms by (simp add: addCameraClient_def consistent_def)

lemma consistent_reset_scan:
  "consistent s \<Longrightarrow> \<forall>i\<in>set is. i < MAX_CLIENTS \<Longrightarrow> consistent (reset_scan is s)"
proof (induction "is" arbitrary: s)
  case Nil
  then show ?case by simp
next
  case (Cons i "is")
  have "consistent (if camClients s ! i \<noteq> None
        then s\<lparr>camClients := (camClients s)[i := None], activeClients := activeClients s - 1\<rparr>
        else s)"
    using Cons.prems consistent_clear [of s i] by simp
  then show ?case using Cons by simp
qed

lemma reset_scan_other [simp]:
  "wsBrowser (reset_scan is s) = wsBrowser s"
  "lowMemCount (reset_scan is s) = lowMemCount s"
  "lastCheck (reset_scan is s) = lastCheck s"
  "frameBuffer (reset_scan is s) = frameBuffer s"
  by (induction "is" arbitrary: s; simp)+

lemma monitorMemory_cases:
  "monitorMemory now heap s =
     (if now - lastCheck s > 1000 then
        (if sint heap < 10000 then
           (if 5 < lowMemCount s + 1
            then ((reset_scan [0 ..< MAX_CLIENTS] (s\<lparr>lastCheck := now, lowMemCount := lowMemCount s + 1\<rparr>))
                    \<lparr>lowMemCount := 0\<rparr>, ForcedReset)
            else (s\<lparr>lastCheck := now, lowMemCount := lowMemCount s + 1\<rparr>, SampleLow))
         else (s\<lparr>lastCheck := now, lowMemCount := 0\<rparr>, SampleOk))
      else (s, NotDue))"
  by (simp add: monitorMemory_def Let_def)

lemma consistent_monitorMemory:
  assumes "consistent s"
  shows "consistent (fst (monitorMemory now heap s))"
proof -
  have "consistent (reset_scan [0 ..< MAX_CLIENTS] (s\<lparr>lastCheck := now, lowMemCount := lowMemCount s + 1\<rparr>))"
    by (rule consistent_reset_scan) (simp_all add: assms consistent_other)
  then show ?thesis
    using assms by (simp add: monitorMemory_cases consistent_other)
qed

lemma handle_table:
  assumes "handleWebSocketMessage lib r c s = (ok, c', s')"
  shows "camClients s' = camClients s \<and> activeClients s' = activeClients s
       \<and> lowMemCount s' = lowMemCount s \<and> lastCheck s' = lastCheck s"
proof (cases "message r")
  case (TextMessage d)
  then show ?thesis using assms by (auto simp: handle_text textAll_def split: if_splits)
next
  case (BinaryMessage d)
  then show ?thesis using assms by (auto simp: handle_binary textAll_def Let_def split: if_splits)
next
  case OtherMessage
  then show ?thesis using assms by (auto simp: handle_other)
qed

lemma removeCameraClient_counters [simp]:
  "lowMemCount (removeCameraClient i s) = lowMemCount s"
  "lastCheck (removeCameraClient i s) = lastCheck s"
  by (simp_all add: removeCameraClient_cases)

lemma addCameraClient_counters [simp]:
  "lowMemCount (snd (addCameraClient conn heap now s)) = lowMemCount s"
  "lastCheck (snd (addCameraClient conn heap now s)) = lastCheck s"
  by (simp_all add: addCameraClient_def upt_MAX_CLIENTS)

lemma loop_body_counters [simp]:
  "lowMemCount (loop_body lib t r i s) = lowMemCount s"
  "lastCheck (loop_body lib t r i s) = lastCheck s"
proof -
  show "lowMemCount (loop_body lib t r i s) = lowMemCount s"
  proof (cases "camClients s ! i")
    case None
    then show ?thesis by (simp add: loop_body_def)
  next
    case (Some c)
    obtain ok c' s' where h: "handleWebSocketMessage lib r c s = (ok, c', s')"
      by (cases "handleWebSocketMessage lib r c s") auto
    from handle_table [OF h] show ?thesis
      using Some h by (simp add: loop_body_def Let_def)
  qed
  show "lastCheck (loop_body lib t r i s) = lastCheck s"
  proof (cases "camClients s ! i")
    case None
    then show ?thesis by (simp add: loop_body_def)
  next
    case (Some c)
    obtain ok c' s' where h: "handleWebSocketMessage lib r c s = (ok, c', s')"
      by (cases "handleWebSocketMessage lib r c s") auto
    from handle_table [OF h] show ?thesis
      using Some h by (simp add: loop_body_def Let_def)
  qed
qed

lemma consistent_loop_body:
  assumes "consistent s" and "i < MAX_CLIENTS"
  shows "consistent (loop_body lib t r i s)"
proof (cases "camClients s ! i")
  case None
  then show ?thesis using assms by (simp add: loop_body_def)
next
  case (Some c)
  obtain ok c' s' where h: "handleWebSocketMessage lib r c s = (ok, c', s')"
    by (cases "handleWebSocketMessage lib r c s") auto
  have tab: "camClients s' = camClients s" "activeClients s' = activeClients s"
    using handle_table [OF h] by simp_all
  have cs': "consistent s'"
    using assms(1) tab by (simp add: consistent_def occupied_def)
  have occ: "camClients s' ! i \<noteq> None" using Some tab by simp
  have upd: "consistent (s'\<lparr>camClients := (camClients s')[i := Some x]\<rparr>)" for x
    by (rule consistent_replace [OF cs' assms(2) occ])
  show ?thesis
    using Some h upd consistent_removeCameraClient [OF upd]
    by (simp add: loop_body_def Let_def)
qed

lemma consistent_loop_clients:
  "consistent s \<Longrightarrow> \<forall>i\<in>set is. i < MAX_CLIENTS \<Longrightarrow> consistent (loop_clients lib t rd is s)"
  by (induction "is" arbitrary: s) (simp_all add: consistent_loop_body)

lemma loop_clients_counters [simp]:
  "lowMemCount (loop_clients lib t rd is s) = lowMemCount s"
  "lastCheck (loop_clients lib t rd is s) = lastCheck s"
  by (induction "is" arbitrary: s; simp)+

lemma consistent_loop:
  assumes "consistent s"
  shows "consistent (loop lib inp s)"
proof -
  have "consistent (loop_clients lib t rd [0 ..< MAX_CLIENTS] s')" if "consistent s'" for t rd s'
    by (rule consistent_loop_clients [OF that]) simp
  then show ?thesis
    using assms
    by (simp add: loop_def Let_def consistent_monitorMemory consistent_other
        consistent_addCameraClient)
qed

lemma loop_lowMemCount:
  "lowMemCount (loop lib inp s) =
     lowMemCount (fst (monitorMemory (monitor_now inp) (monitor_heap inp) s))"
  by (simp add: loop_def Let_def)

lemma consistent_apply_op: "consistent s \<Longrightarrow> consistent (apply_op lib x s)"
  by (cases x)
     (simp_all add: consistent_addCameraClient consistent_removeCameraClient
        consistent_monitorMemory consistent_loop)

lemma consistent_run: "consistent s \<Longrightarrow> consistent (run lib ops s)"
  by (induction ops arbitrary: s) (simp_all add: consistent_apply_op)

subsection \<open>Capacity of the slot table\<close>

text \<open>
  Claim C3. In every state reached from start-up by admissions, evictions, memory checks
  (with their forced resets) and passes of \<open>loop()\<close>, at most \<open>MAX_CLIENTS = 2\<close> slots
  are occupied and \<open>activeClients\<close> counts them. An admission attempted while all
  slots are occupied returns false and leaves the whole state as it is. A successful
  admission fills the first empty slot with the connection, the identity -1 and the
  current time as \<open>lastActivity\<close>, raises the occupancy by one and pushes nothing.
\<close>

theorem slot_capacity:
  "MAX_CLIENTS = 2 \<and>
   (let s = run lib ops init_server in
      occupied s \<le> MAX_CLIENTS \<and> unat (activeClients s) = occupied s \<and>
      (occupied s = MAX_CLIENTS \<longrightarrow> addCameraClient conn heap now s = (False, s)) \<and>
      (\<forall>s'. addCameraClient conn heap now s = (True, s') \<longrightarrow>
         (\<exists>i<MAX_CLIENTS.
            camClients s ! i = None \<and> (\<forall>j<i. camClients s ! j \<noteq> None) \<and>
            camClients s' =
              (camClients s)[i := Some \<lparr>client = conn, cameraId = - 1, lastActivity = now\<rparr>] \<and>
            occupied s' = occupied s + 1 \<and> wsBrowser s' = wsBrowser s)))"
proof -
  define s where "s = run lib ops init_server"
  have c: "consistent s"
    unfolding s_def by (rule consistent_run [OF consistent_init])
  have le: "occupied s \<le> MAX_CLIENTS"
    using c occupied_le_length [of s] by (simp add: consistent_def)
  have cnt: "unat (activeClients s) = occupied s"
    using c by (simp add: consistent_def)
  have full: "addCameraClient conn heap now s = (False, s)" if "occupied s = MAX_CLIENTS"
    by (rule addCameraClient_full [OF c that])
  have adm: "\<exists>i<MAX_CLIENTS.
            camClients s ! i = None \<and> (\<forall>j<i. camClients s ! j \<noteq> None) \<and>
            camClients s' =
              (camClients s)[i := Some \<lparr>client = conn, cameraId = - 1, lastActivity = now\<rparr>] \<and>
            occupied s' = occupied s + 1 \<and> wsBrowser s' = wsBrowser s"
    if h: "addCameraClient conn heap now s = (True, s')" for s'
  proof -
    obtain i where i: "i < MAX_CLIENTS" "camClients s ! i = None" "\<forall>j<i. camClients s ! j \<noteq> None"
      "s' = s\<lparr>camClients := (camClients s)[i := Some (new_CameraClient conn (- 1) now)],
                  activeClients := activeClients s + 1\<rparr>"
      using addCameraClient_success [OF h] by blast
    have len: "i < length (camClients s)" using c i(1) by (simp add: consistent_def)
    have "occupied s' = occupied s + 1"
      unfolding i(4) using occupied_fill [OF len i(2)] by simp
    then show ?thesis
      using i by (intro exI [of _ i]) (simp add: new_CameraClient_def)
  qed
  show ?thesis
    unfolding Let_def s_def [symmetric]
    using le cnt full adm by (simp add: MAX_CLIENTS_def)
qed

lemma two_admissions:
  "run lib [Admit 1 50000 10, Admit 2 50000 20] init_server =
     init_server\<lparr>camClients := [Some (new_CameraClient 1 (- 1) 10), Some (new_CameraClient 2 (- 1) 20)],
                 activeClients := 2\<rparr>"
  by (simp add: first_admission)
     (simp add: addCameraClient_def upt_MAX_CLIENTS [unfolded MAX_CLIENTS_def] MAX_CLIENTS_def
        MAX_FRAME_SIZE_def init_server_def)

text \<open>
  The theorem after two admissions (a third one is refused) and at start-up (the first
  admission fills slot 0).
\<close>

theorem slot_capacity_witness:
  "occupied (run example_lib [Admit 1 50000 10, Admit 2 50000 20] init_server) = MAX_CLIENTS
   \<and> addCameraClient 3 50000 30 (run example_lib [Admit 1 50000 10, Admit 2 50000 20] init_server) =
       (False, run example_lib [Admit 1 50000 10, Admit 2 50000 20] init_server)
   \<and> addCameraClient 1 50000 10 (run example_lib [] init_server) =
       (True, init_server\<lparr>camClients := [Some (new_CameraClient 1 (- 1) 10), None],
                          activeClients := 1\<rparr>)
   \<and> occupied (init_server\<lparr>camClients := [Some (new_CameraClient 1 (- 1) 10), None],
                             activeClients := 1\<rparr>) = occupied (run example_lib [] init_server) + 1"
proof -
  have occ: "occupied (run example_lib [Admit 1 50000 10, Admit 2 50000 20] init_server) = MAX_CLIENTS"
    unfolding two_admissions by (simp add: occupied_def MAX_CLIENTS_def)
  have full: "addCameraClient 3 50000 30 (run example_lib [Admit 1 50000 10, Admit 2 50000 20] init_server) =
       (False, run example_lib [Admit 1 50000 10, Admit 2 50000 20] init_server)"
    using slot_capacity [of example_lib "[Admit 1 50000 10, Admit 2 50000 20]" 3 50000 30,
        THEN conjunct2, unfolded Let_def] occ
    by blast
  have adm: "addCameraClient 1 50000 10 (run example_lib [] init_server) =
       (True, init_server\<lparr>camClients := [Some (new_CameraClient 1 (- 1) 10), None],
                          activeClients := 1\<rparr>)"
    by (simp add: first_admission)
  have "occupied (init_server\<lparr>camClients := [Some (new_CameraClient 1 (- 1) 10), None],
                             activeClients := 1\<rparr>) = occupied (run example_lib [] init_server) + 1"
    using slot_capacity [of example_lib "[]" 1 50000 10, THEN conjunct2, unfolded Let_def] adm
    by blast
  then show ?thesis using occ full adm by simp
qed

subsection \<open>The low-memory counter along a run\<close>

lemma samples_Cons:
  "samples (out # outs) = (if out = NotDue then samples outs else out # samples outs)"
  by (simp add: samples_def)

lemma fires_tail_ok:
  assumes "fires_after_five 0 outs"
  shows "fires_after_five c (SampleOk # outs)"
  unfolding fires_after_five_def
proof (intro allI impI)
  fix k assume k: "k < length (SampleOk # outs)" "(SampleOk # outs) ! k = ForcedReset"
  then obtain k' where k': "k = Suc k'" by (cases k) auto
  then have f: "k' < length outs" "outs ! k' = ForcedReset" using k by auto
  from assms [unfolded fires_after_five_def, rule_format, OF f]
  have a: "5 \<le> k'" "\<forall>j<k'. k' \<le> j + 5 \<longrightarrow> outs ! j = SampleLow"
      "Suc k' < length outs \<longrightarrow> outs ! Suc k' \<noteq> ForcedReset" by auto
  have "(SampleOk # outs) ! j = SampleLow" if "j < k" "k \<le> j + 5" for j
    using that a(1,2) k' by (cases j) auto
  then show "5 \<le> k + c \<and> (\<forall>j<k. k \<le> j + 5 \<longrightarrow> (SampleOk # outs) ! j = SampleLow) \<and>
      (Suc k < length (SampleOk # outs) \<longrightarrow> (SampleOk # outs) ! Suc k \<noteq> ForcedReset)"
    using a k' by auto
qed

lemma fires_tail_low:
  assumes "fires_after_five (Suc c) outs"
  shows "fires_after_five c (SampleLow # outs)"
  unfolding fires_after_five_def
proof (intro allI impI)
  fix k assume k: "k < length (SampleLow # outs)" "(SampleLow # outs) ! k = ForcedReset"
  then obtain k' where k': "k = Suc k'" by (cases k) auto
  then have f: "k' < length outs" "outs ! k' = ForcedReset" using k by auto
  from assms [unfolded fires_after_five_def, rule_format, OF f]
  have a: "5 \<le> k' + Suc c" "\<forall>j<k'. k' \<le> j + 5 \<longrightarrow> outs ! j = SampleLow"
      "Suc k' < length outs \<longrightarrow> outs ! Suc k' \<noteq> ForcedReset" by auto
  have "(SampleLow # outs) ! j = SampleLow" if "j < k" "k \<le> j + 5" for j
    using that a(2) k' by (cases j) auto
  then show "5 \<le> k + c \<and> (\<forall>j<k. k \<le> j + 5 \<longrightarrow> (SampleLow # outs) ! j = SampleLow) \<and>
      (Suc k < length (SampleLow # outs) \<longrightarrow> (SampleLow # outs) ! Suc k \<noteq> ForcedReset)"
    using a k' by auto
qed

lemma fires_tail_reset:
  assumes "fires_after_five 0 outs" and "5 \<le> c"
  shows "fires_after_five c (ForcedReset # outs)"
  unfolding fires_after_five_def
proof (intro allI impI)
  fix k assume k: "k < length (ForcedReset # outs)" "(ForcedReset # outs) ! k = ForcedReset"
  show "5 \<le> k + c \<and> (\<forall>j<k. k \<le> j + 5 \<longrightarrow> (ForcedReset # outs) ! j = SampleLow) \<and>
      (Suc k < length (ForcedReset # outs) \<longrightarrow> (ForcedReset # outs) ! Suc k \<noteq> ForcedReset)"
  proof (cases k)
    case 0
    have "outs ! 0 \<noteq> ForcedReset" if "0 < length outs"
      using assms(1) [unfolded fires_after_five_def, rule_format, OF that] by auto
    then show ?thesis using 0 assms(2) by auto
  next
    case (Suc k')
    then have f: "k' < length outs" "outs ! k' = ForcedReset" using k by auto
    from assms(1) [unfolded fires_after_five_def, rule_format, OF f]
    have a: "5 \<le> k'" "\<forall>j<k'. k' \<le> j + 5 \<longrightarrow> outs ! j = SampleLow"
        "Suc k' < length outs \<longrightarrow> outs ! Suc k' \<noteq> ForcedReset" by auto
    have "(ForcedReset # outs) ! j = SampleLow" if "j < k" "k \<le> j + 5" for j
      using that a(1,2) Suc by (cases j) auto
    then show ?thesis using a Suc by auto
  qed
qed

lemma monitorMemory_counter:
  assumes "0 \<le> lowMemCount s" and "lowMemCount s \<le> 5"
  shows "(case snd (monitorMemory now heap s) of
            NotDue \<Rightarrow> lowMemCount (fst (monitorMemory now heap s)) = lowMemCount s
          | SampleOk \<Rightarrow> lowMemCount (fst (monitorMemory now heap s)) = 0
          | SampleLow \<Rightarrow> lowMemCount (fst (monitorMemory now heap s)) = lowMemCount s + 1
                          \<and> lowMemCount s + 1 \<le> 5
          | ForcedReset \<Rightarrow> lowMemCount (fst (monitorMemory now heap s)) = 0 \<and> lowMemCount s = 5)"
  using assms by (simp add: monitorMemory_cases)

lemma fires_step:
  assumes "0 \<le> lowMemCount s" and "lowMemCount s \<le> 5"
      and "fires_after_five (nat (lowMemCount (fst (monitorMemory now heap s)))) (samples outs)"
  shows "fires_after_five (nat (lowMemCount s)) (samples (snd (monitorMemory now heap s) # outs))"
proof -
  let ?s' = "fst (monitorMemory now heap s)"
  note c = monitorMemory_counter [OF assms(1,2), of now heap]
  show ?thesis
  proof (cases "snd (monitorMemory now heap s)")
    case NotDue
    then have "lowMemCount ?s' = lowMemCount s" using c by simp
    then have "fires_after_five (nat (lowMemCount s)) (samples outs)"
      using assms(3) by (simp only:)
    then show ?thesis by (simp add: NotDue samples_Cons)
  next
    case SampleOk
    then have "lowMemCount ?s' = 0" using c by simp
    then have "fires_after_five 0 (samples outs)"
      using assms(3) by (simp only: nat_0)
    then have "fires_after_five (nat (lowMemCount s)) (SampleOk # samples outs)"
      by (rule fires_tail_ok)
    then show ?thesis by (simp add: SampleOk samples_Cons)
  next
    case SampleLow
    then have z: "lowMemCount ?s' = lowMemCount s + 1" using c by simp
    have "nat (lowMemCount s + 1) = Suc (nat (lowMemCount s))"
      using assms(1) by arith
    then have "fires_after_five (Suc (nat (lowMemCount s))) (samples outs)"
      using assms(3) by (simp only: z)
    then have "fires_after_five (nat (lowMemCount s)) (SampleLow # samples outs)"
      by (rule fires_tail_low)
    then show ?thesis by (simp add: SampleLow samples_Cons)
  next
    case ForcedReset
    then have z: "lowMemCount ?s' = 0" "lowMemCount s = 5" using c by simp_all
    have "fires_after_five 0 (samples outs)"
      using assms(3) by (simp only: z nat_0)
    moreover have "5 \<le> nat (lowMemCount s)" by (simp add: z)
    ultimately have "fires_after_five (nat (lowMemCount s)) (ForcedReset # samples outs)"
      by (rule fires_tail_reset)
    then show ?thesis by (simp add: ForcedReset samples_Cons)
  qed
qed

lemma monitorMemory_counter_range:
  assumes "0 \<le> lowMemCount s" and "lowMemCount s \<le> 5"
  shows "0 \<le> lowMemCount (fst (monitorMemory now heap s))
       \<and> lowMemCount (fst (monitorMemory now heap s)) \<le> 5"
  using assms by (simp add: monitorMemory_cases)

lemma outcomes_fire:
  "0 \<le> lowMemCount s \<Longrightarrow> lowMemCount s \<le> 5 \<Longrightarrow>
     fires_after_five (nat (lowMemCount s)) (samples (outcomes lib ops s))"
proof (induction ops arbitrary: s)
  case Nil
  then show ?case by (simp add: samples_def fires_after_five_def)
next
  case (Cons x xs)
  show ?case
  proof (cases x)
    case (Admit conn heap now)
    have "fires_after_five (nat (lowMemCount (snd (addCameraClient conn heap now s))))
        (samples (outcomes lib xs (snd (addCameraClient conn heap now s))))"
      by (rule Cons.IH) (simp_all add: Cons.prems)
    then show ?thesis by (simp add: Admit)
  next
    case (Evict i)
    have "fires_after_five (nat (lowMemCount (removeCameraClient i s)))
        (samples (outcomes lib xs (removeCameraClient i s)))"
      by (rule Cons.IH) (simp_all add: Cons.prems)
    then show ?thesis by (simp add: Evict)
  next
    case (Monitor now heap)
    note rng = monitorMemory_counter_range [OF Cons.prems, of now heap]
    have "fires_after_five (nat (lowMemCount (fst (monitorMemory now heap s))))
        (samples (outcomes lib xs (fst (monitorMemory now heap s))))"
      by (rule Cons.IH) (simp_all add: rng)
    from fires_step [OF Cons.prems this] show ?thesis by (simp add: Monitor)
  next
    case (Pass inp)
    note rng = monitorMemory_counter_range [OF Cons.prems, of "monitor_now inp" "monitor_heap inp"]
    have "fires_after_five (nat (lowMemCount (loop lib inp s)))
        (samples (outcomes lib xs (loop lib inp s)))"
      by (rule Cons.IH) (simp_all add: loop_lowMemCount rng)
    then have "fires_after_five
        (nat (lowMemCount (fst (monitorMemory (monitor_now inp) (monitor_heap inp) s))))
        (samples (outcomes lib xs (loop lib inp s)))"
      by (simp only: loop_lowMemCount)
    from fires_step [OF Cons.prems this] show ?thesis by (simp add: Pass)
  qed
qed

subsection \<open>The memory guard fires after sustained pressure only\<close>

text \<open>
  Claim C4. Take the memory samples of any run from start-up (the calls of
  \<open>monitorMemory\<close> in which a check was due, more than 1000 ms after the previous one).
  A forced reset happens only at a low sample (free heap below 10000) that finds the
  counter at 5 or more: at least five samples precede it, the five samples just before
  it are low samples that did not fire, so it is the sixth consecutive low sample.
  The sample after a forced reset never fires, low or not, because the reset puts the
  counter back to 0; a sample that is not low puts the counter to 0 as well, and a low
  sample that does not fire adds one to it.
\<close>

theorem forced_reset_edge_triggered:
  "(let outs = samples (outcomes lib ops init_server) in
      \<forall>k<length outs. outs ! k = ForcedReset \<longrightarrow>
         5 \<le> k \<and> (\<forall>j<k. k \<le> j + 5 \<longrightarrow> outs ! j = SampleLow) \<and>
         (Suc k < length outs \<longrightarrow> outs ! Suc k \<noteq> ForcedReset))
   \<and> (\<forall>now heap s.
        (snd (monitorMemory now heap s) = NotDue \<longleftrightarrow> \<not> now - lastCheck s > 1000) \<and>
        (snd (monitorMemory now heap s) = SampleOk \<longleftrightarrow>
           now - lastCheck s > 1000 \<and> \<not> sint heap < 10000) \<and>
        (snd (monitorMemory now heap s) = SampleLow \<longleftrightarrow>
           now - lastCheck s > 1000 \<and> sint heap < 10000 \<and> \<not> 5 < lowMemCount s + 1) \<and>
        (snd (monitorMemory now heap s) = ForcedReset \<longleftrightarrow>
           now - lastCheck s > 1000 \<and> sint heap < 10000 \<and> 5 < lowMemCount s + 1) \<and>
        (snd (monitorMemory now heap s) = SampleOk \<longrightarrow>
           lowMemCount (fst (monitorMemory now heap s)) = 0) \<and>
        (snd (monitorMemory now heap s) = SampleLow \<longrightarrow>
           lowMemCount (fst (monitorMemory now heap s)) = lowMemCount s + 1) \<and>
        (snd (monitorMemory now heap s) = ForcedReset \<longrightarrow>
           lowMemCount (fst (monitorMemory now heap s)) = 0))"
proof -
  have "fires_after_five (nat (lowMemCount init_server)) (samples (outcomes lib ops init_server))"
    by (rule outcomes_fire) (simp_all add: init_server_def)
  then have "fires_after_five 0 (samples (outcomes lib ops init_server))"
    by (simp add: init_server_def)
  then have a: "let outs = samples (outcomes lib ops init_server) in
      \<forall>k<length outs. outs ! k = ForcedReset \<longrightarrow>
         5 \<le> k \<and> (\<forall>j<k. k \<le> j + 5 \<longrightarrow> outs ! j = SampleLow) \<and>
         (Suc k < length outs \<longrightarrow> outs ! Suc k \<noteq> ForcedReset)"
    by (simp add: fires_after_five_def Let_def)
  have b: "(snd (monitorMemory now heap s) = NotDue \<longleftrightarrow> \<not> now - lastCheck s > 1000) \<and>
        (snd (monitorMemory now heap s) = SampleOk \<longleftrightarrow>
           now - lastCheck s > 1000 \<and> \<not> sint heap < 10000) \<and>
        (snd (monitorMemory now heap s) = SampleLow \<longleftrightarrow>
           now - lastCheck s > 1000 \<and> sint heap < 10000 \<and> \<not> 5 < lowMemCount s + 1) \<and>
        (snd (monitorMemory now heap s) = ForcedReset \<longleftrightarrow>
           now - lastCheck s > 1000 \<and> sint heap < 10000 \<and> 5 < lowMemCount s + 1) \<and>
        (snd (monitorMemory now heap s) = SampleOk \<longrightarrow>
           lowMemCount (fst (monitorMemory now heap s)) = 0) \<and>
        (snd (monitorMemory now heap s) = SampleLow \<longrightarrow>
           lowMemCount (fst (monitorMemory now heap s)) = lowMemCount s + 1) \<and>
        (snd (monitorMemory now heap s) = ForcedReset \<longrightarrow>
           lowMemCount (fst (monitorMemory now heap s)) = 0)" for now heap s
    by (simp add: monitorMemory_cases)
  show ?thesis using a b by blast
qed

lemma monitor_projections:
  "lastCheck (fst (monitorMemory now heap s)) = (if now - lastCheck s > 1000 then now else lastCheck s)"
  "lowMemCount (fst (monitorMemory now heap s)) =
     (if now - lastCheck s > 1000 then
        (if sint heap < 10000 \<and> \<not> 5 < lowMemCount s + 1 then lowMemCount s + 1 else 0)
      else lowMemCount s)"
  "snd (monitorMemory now heap s) =
     (if now - lastCheck s > 1000 then
        (if sint heap < 10000 then (if 5 < lowMemCount s + 1 then ForcedReset else SampleLow)
         else SampleOk)
      else NotDue)"
  "wsBrowser (fst (monitorMemory now heap s)) = wsBrowser s"
  by (simp_all add: monitorMemory_cases)

text \<open>
  The theorem on eight calls with 5000 bytes free (the second one comes too early to
  be a sample): the sixth sample fires and the seventh does not; and on a low sample
  followed by a sample with 50000 bytes free, which resets the counter.
\<close>

theorem forced_reset_edge_triggered_witness:
  "samples (outcomes example_lib
      [Monitor 2000 5000, Monitor 2500 5000, Monitor 4000 5000, Monitor 6000 5000,
       Monitor 8000 5000, Monitor 10000 5000, Monitor 12000 5000, Monitor 14000 5000]
      init_server) =
     [SampleLow, SampleLow, SampleLow, SampleLow, SampleLow, ForcedReset, SampleLow]
   \<and> [SampleLow, SampleLow, SampleLow, SampleLow, SampleLow, ForcedReset, SampleLow] ! 6
       \<noteq> ForcedReset
   \<and> snd (monitorMemory 2000 50000 (fst (monitorMemory 500 5000 init_server))) = SampleOk
   \<and> lowMemCount (fst (monitorMemory 2000 50000 (fst (monitorMemory 500 5000 init_server)))) = 0"
proof -
  define ops where "ops =
      [Monitor 2000 5000, Monitor 2500 5000, Monitor 4000 5000, Monitor 6000 5000,
       Monitor 8000 5000, Monitor 10000 5000, Monitor 12000 5000, Monitor 14000 5000]"
  have ev: "outcomes example_lib ops init_server =
     [SampleLow, NotDue, SampleLow, SampleLow, SampleLow, SampleLow, ForcedReset, SampleLow]"
    unfolding ops_def
    by (simp add: monitor_projections) (simp add: init_server_def)
  have sm: "samples (outcomes example_lib ops init_server) =
     [SampleLow, SampleLow, SampleLow, SampleLow, SampleLow, ForcedReset, SampleLow]"
    by (simp add: ev samples_def)
  note th = forced_reset_edge_triggered [of example_lib ops, unfolded Let_def sm]
  have nf: "[SampleLow, SampleLow, SampleLow, SampleLow, SampleLow, ForcedReset, SampleLow] ! 6
      \<noteq> ForcedReset"
    using th [THEN conjunct1, rule_format, of 5] by simp
  have ok: "snd (monitorMemory 2000 50000 (fst (monitorMemory 500 5000 init_server))) = SampleOk"
    by (simp add: monitor_projections) (simp add: init_server_def)
  have "lowMemCount (fst (monitorMemory 2000 50000 (fst (monitorMemory 500 5000 init_server)))) = 0"
    using th [THEN conjunct2, rule_format, of 2000 50000 "fst (monitorMemory 500 5000 init_server)"] ok
    by blast
  then show ?thesis using sm ok nf unfolding ops_def by blast
qed

subsection \<open>Eviction by the memory guard\<close>

lemma camera_one_connected:
  "camClients (run example_lib [Admit 7 50000 0, Pass frame_pass] init_server) =
     [Some \<lparr>client = 7, cameraId = 1, lastActivity = 100\<rparr>, None]"
  "wsBrowser (run example_lib [Admit 7 50000 0, Pass frame_pass] init_server) =
     [TextAll (statusMsg (- 1) ''disconnected''), TextAll (statusMsg 1 ''connected''),
      BinaryAll (tagged_frame 1)]"
  "lowMemCount (run example_lib [Admit 7 50000 0, Pass frame_pass] init_server) = 0"
  "lastCheck (run example_lib [Admit 7 50000 0, Pass frame_pass] init_server) = 0"
proof -
  define s1 where "s1 = init_server\<lparr>camClients := [Some (new_CameraClient 7 (- 1) 0), None],
                        activeClients := 1\<rparr>"
  have sc: "split_chunks CHUNK_SIZE (tagged_frame 1) = [tagged_frame 1]"
    by (rule split_chunks_single) (simp_all add: CHUNK_SIZE_def)
  have m: "monitorMemory 100 50000 s1 = (s1, NotDue)"
    by (simp add: monitorMemory_cases s1_def init_server_def)
  obtain ok c' s' where h: "handleWebSocketMessage example_lib (ready (BinaryMessage (tagged_frame 1)))
      (new_CameraClient 7 (- 1) 0) s1 = (ok, c', s')"
    by (cases "handleWebSocketMessage example_lib (ready (BinaryMessage (tagged_frame 1)))
      (new_CameraClient 7 (- 1) 0) s1") auto
  have ok: "ok" and c': "c' = \<lparr>client = 7, cameraId = 1, lastActivity = 0\<rparr>"
    using h by (auto simp: handle_binary Let_def new_CameraClient_def MAX_FRAME_SIZE_def)
  have tab: "camClients s' = camClients s1" "lowMemCount s' = lowMemCount s1"
      "lastCheck s' = lastCheck s1"
    using handle_table [OF h] by simp_all
  have em: "emitted s1 s' = [TextAll (statusMsg (- 1) ''disconnected''),
      TextAll (statusMsg 1 ''connected''), BinaryAll (tagged_frame 1)]"
    using handle_binary_emitted [OF ready_simps(3) h]
    by (simp add: new_CameraClient_def MAX_FRAME_SIZE_def sc)
  have ws1: "wsBrowser s1 = []" by (simp add: s1_def init_server_def)
  have ws: "wsBrowser s' = [TextAll (statusMsg (- 1) ''disconnected''),
      TextAll (statusMsg 1 ''connected''), BinaryAll (tagged_frame 1)]"
    using em by (simp add: emitted_def ws1)
  have b0: "loop_body example_lib 100 (ready (BinaryMessage (tagged_frame 1))) 0 s1 =
      s'\<lparr>camClients := [Some \<lparr>client = 7, cameraId = 1, lastActivity = 100\<rparr>, None]\<rparr>"
    using h ok c' tab by (simp add: loop_body_def s1_def)
  have b1: "loop_body example_lib 100 r (Suc 0)
      (s'\<lparr>camClients := [Some \<lparr>client = 7, cameraId = 1, lastActivity = 100\<rparr>, None]\<rparr>) =
      s'\<lparr>camClients := [Some \<lparr>client = 7, cameraId = 1, lastActivity = 100\<rparr>, None]\<rparr>" for r
    by (simp add: loop_body_def)
  have r: "run example_lib [Admit 7 50000 0, Pass frame_pass] init_server =
      s'\<lparr>camClients := [Some \<lparr>client = 7, cameraId = 1, lastActivity = 100\<rparr>, None]\<rparr>"
    by (simp add: first_admission s1_def [symmetric] loop_def m frame_pass_def upt_MAX_CLIENTS
        b0 b1 Let_def)
       (simp add: s1_def init_server_def)
  show "camClients (run example_lib [Admit 7 50000 0, Pass frame_pass] init_server) =
     [Some \<lparr>client = 7, cameraId = 1, lastActivity = 100\<rparr>, None]"
    by (simp only: r) simp
  show "wsBrowser (run example_lib [Admit 7 50000 0, Pass frame_pass] init_server) =
     [TextAll (statusMsg (- 1) ''disconnected''), TextAll (statusMsg 1 ''connected''),
      BinaryAll (tagged_frame 1)]"
    by (simp only: r) (simp add: ws)
  show "lowMemCount (run example_lib [Admit 7 50000 0, Pass frame_pass] init_server) = 0"
    by (simp only: r) (simp add: tab s1_def init_server_def)
  show "lastCheck (run example_lib [Admit 7 50000 0, Pass frame_pass] init_server) = 0"
    by (simp only: r) (simp add: tab s1_def init_server_def)
qed

lemma run_append: "run lib (xs @ ys) s = run lib ys (run lib xs s)"
  by (induction xs arbitrary: s) simp_all

lemma reset_scan_table:
  "camClients (reset_scan is s) = fold (\<lambda>i xs. xs[i := None]) is (camClients s)"
proof (induction "is" arbitrary: s)
  case Nil
  then show ?case by simp
next
  case (Cons i "is")
  have "(camClients s)[i := None] = camClients s" if "camClients s ! i = None"
    using list_update_id [of "camClients s" i] that by simp
  then show ?case by (simp add: Cons.IH)
qed

lemma monitor_table:
  "camClients (fst (monitorMemory now heap s)) =
     (if now - lastCheck s > 1000 \<and> sint heap < 10000 \<and> 5 < lowMemCount s + 1
      then fold (\<lambda>i xs. xs[i := None]) [0 ..< MAX_CLIENTS] (camClients s)
      else camClients s)"
  by (simp add: monitorMemory_cases reset_scan_table)

text \<open>
  Claim C5 fails on the code. A camera is admitted and tagged camera 1 by its first
  frame; six low memory samples follow. The forced reset empties the slot and pushes
  nothing to the browsers, while \<open>removeCameraClient\<close> on the same state (the timeout
  path) pushes the \<open>disconnected\<close> status of camera 1.
\<close>

theorem memory_guard_evicts_silently:
  "camClients (run example_lib [Admit 7 50000 0, Pass frame_pass] init_server) =
     [Some \<lparr>client = 7, cameraId = 1, lastActivity = 100\<rparr>, None]
   \<and> camClients (run example_lib
        ([Admit 7 50000 0, Pass frame_pass] @
         [Monitor 2000 5000, Monitor 4000 5000, Monitor 6000 5000,
          Monitor 8000 5000, Monitor 10000 5000, Monitor 12000 5000]) init_server) =
     [None, None]
   \<and> emitted (run example_lib [Admit 7 50000 0, Pass frame_pass] init_server)
       (run example_lib
        ([Admit 7 50000 0, Pass frame_pass] @
         [Monitor 2000 5000, Monitor 4000 5000, Monitor 6000 5000,
          Monitor 8000 5000, Monitor 10000 5000, Monitor 12000 5000]) init_server) = []
   \<and> emitted (run example_lib [Admit 7 50000 0, Pass frame_pass] init_server)
       (removeCameraClient 0 (run example_lib [Admit 7 50000 0, Pass frame_pass] init_server)) =
     [TextAll ''{\"type\":\"status\",\"camera\":1,\"status\":\"disconnected\"}'']"
proof -
  define s where "s = run example_lib [Admit 7 50000 0, Pass frame_pass] init_server"
  note p = camera_one_connected [folded s_def]
  have a: "camClients (run example_lib
         [Monitor 2000 5000, Monitor 4000 5000, Monitor 6000 5000,
          Monitor 8000 5000, Monitor 10000 5000, Monitor 12000 5000] s) = [None, None]"
    by (simp add: monitor_table monitor_projections p upt_MAX_CLIENTS)
  have b: "wsBrowser (run example_lib
         [Monitor 2000 5000, Monitor 4000 5000, Monitor 6000 5000,
          Monitor 8000 5000, Monitor 10000 5000, Monitor 12000 5000] s) = wsBrowser s"
    by (simp add: monitor_projections)
  have c: "emitted s (removeCameraClient 0 s) =
     [TextAll ''{\"type\":\"status\",\"camera\":1,\"status\":\"disconnected\"}'']"
    by (simp add: removeCameraClient_cases p MAX_CLIENTS_def emitted_def statusMsg_def
        String_int_examples)
  show ?thesis
    unfolding run_append s_def [symmetric]
    using p(1) a b c by (simp add: emitted_def)
qed

subsection \<open>What a text message pushes to the browsers\<close>

lemma handle_text_wsBrowser:
  assumes "message r = TextMessage d"
      and "handleWebSocketMessage lib r c s = (ok, c', s')"
  shows "c' = c \<and>
     ok = (available r \<and> MAX_FRAME_SIZE + 1024 \<le> unat (freeHeap r)) \<and>
     wsBrowser s' = wsBrowser s @
       (if available r \<and> MAX_FRAME_SIZE + 1024 \<le> unat (freeHeap r)
           \<and> (\<exists>a b. d = a @ motion_marker @ b)
        then [TextAll (serializeJson lib
                (doc_assign (deserializeJson lib d) ''camera'' (JInt (cameraId c))))]
        else [])"
  using assms(2) unfolding handle_text [OF assms(1)] indexOf_iff
  by (auto simp: textAll_def split: if_splits)

lemma motion_texts_contain:
  "\<exists>a b. motion_text = a @ motion_marker @ b"
  "\<exists>a b. motion_text_camera 1 = a @ motion_marker @ b"
  "\<exists>a b. motion_text_camera 2 = a @ motion_marker @ b"
  using motion_texts_recognised by (simp_all add: indexOf_iff)

lemma spaced_texts:
  "example_parse spaced_motion_text =
     JObj [(''type'', JStr ''motion''), (''camera'', JInt 2), (''detected'', JBool True)]"
  "example_parse spaced_motion_text_nested =
     JObj [(''type'', JStr ''motion''), (''camera'', JObj [(''type'', JStr ''motion'')]),
           (''detected'', JBool True)]"
  "\<not> 0 \<le> indexOf spaced_motion_text motion_marker"
  "0 \<le> indexOf spaced_motion_text_nested motion_marker"
  by (simp_all add: example_parse_def motion_text_def motion_text_camera_def motion_text_bare_def
      spaced_motion_text_def spaced_motion_text_nested_def String_int_examples
      indexOf_def motion_marker_def)

subsection \<open>Motion events carry the slot's identity\<close>

text \<open>
  Claim C2, as amended. Let a text message contain the literal \<open>"type":"motion"\<close>
  (the test by which the handler recognises a motion event) and parse to a JSON
  object, and let it be read while the connection is available and the free heap is
  at least \<open>MAX_FRAME_SIZE + 1024\<close>. Then the handler succeeds and pushes to the
  browsers exactly one text: the serialized object with its member \<open>camera\<close> set to
  the slot's own identity. A second such message, also containing the literal, whose
  object differs from the first at most in the value of \<open>camera\<close> makes the handler
  push the same text.
\<close>

theorem motion_event_identity:
  assumes "available r" and "MAX_FRAME_SIZE + 1024 \<le> unat (freeHeap r)"
      and "message r = TextMessage d" and "\<exists>a b. d = a @ motion_marker @ b"
      and "deserializeJson lib d = JObj kvs"
      and "handleWebSocketMessage lib r c s = (ok, c', s')"
  shows "ok \<and> c' = c
       \<and> wsBrowser s' = wsBrowser s @
            [TextAll (serializeJson lib (doc_assign (JObj kvs) ''camera'' (JInt (cameraId c))))]
       \<and> doc_member (doc_assign (JObj kvs) ''camera'' (JInt (cameraId c))) ''camera''
            = Some (JInt (cameraId c))
       \<and> (\<forall>r2 d2 kvs2 ok2 c2 s2.
             available r2 \<and> MAX_FRAME_SIZE + 1024 \<le> unat (freeHeap r2)
             \<and> message r2 = TextMessage d2 \<and> (\<exists>a b. d2 = a @ motion_marker @ b)
             \<and> deserializeJson lib d2 = JObj kvs2 \<and> differ_only_at ''camera'' kvs kvs2
             \<and> handleWebSocketMessage lib r2 c s = (ok2, c2, s2)
             \<longrightarrow> wsBrowser s2 = wsBrowser s' \<and> emitted s s2 = emitted s s')"
proof -
  note h = handle_text_wsBrowser [OF assms(3,6)]
  have a: "ok" "c' = c" using h assms(1,2) by simp_all
  have w: "wsBrowser s' = wsBrowser s @
            [TextAll (serializeJson lib (doc_assign (JObj kvs) ''camera'' (JInt (cameraId c))))]"
    using h assms(1,2,4,5) by simp
  have b: "doc_member (doc_assign (JObj kvs) ''camera'' (JInt (cameraId c))) ''camera''
            = Some (JInt (cameraId c))"
    by (simp add: map_of_set_member_same)
  have c: "wsBrowser s2 = wsBrowser s' \<and> emitted s s2 = emitted s s'"
    if "available r2" "MAX_FRAME_SIZE + 1024 \<le> unat (freeHeap r2)"
       "message r2 = TextMessage d2" "\<exists>a b. d2 = a @ motion_marker @ b"
       "deserializeJson lib d2 = JObj kvs2" "differ_only_at ''camera'' kvs kvs2"
       "handleWebSocketMessage lib r2 c s = (ok2, c2, s2)"
    for r2 d2 kvs2 ok2 c2 s2
  proof -
    have "wsBrowser s2 = wsBrowser s @
            [TextAll (serializeJson lib (doc_assign (JObj kvs2) ''camera'' (JInt (cameraId c))))]"
      using handle_text_wsBrowser [OF that(3,7)] that(1,2,4,5) by simp
    then have "wsBrowser s2 = wsBrowser s'"
      using w differ_only_at_set_member [OF that(6), of "JInt (cameraId c)"] by simp
    then show ?thesis by (simp add: emitted_def)
  qed
  show ?thesis using a w b c by blast
qed

text \<open>
  The theorem on a slot tagged camera 1 that sends a motion event claiming camera 2:
  the browsers receive camera 1, the same text as for the event claiming camera 1.
\<close>

theorem motion_event_identity_witness:
  "wsBrowser (snd (snd (handleWebSocketMessage example_lib
       (ready (TextMessage (motion_text_camera 2)))
       \<lparr>client = 7, cameraId = 1, lastActivity = 0\<rparr> init_server))) =
     [TextAll ''{\"type\":\"motion\",\"camera\":1,\"detected\":true}'']
   \<and> wsBrowser (snd (snd (handleWebSocketMessage example_lib
       (ready (TextMessage (motion_text_camera 1)))
       \<lparr>client = 7, cameraId = 1, lastActivity = 0\<rparr> init_server))) =
     wsBrowser (snd (snd (handleWebSocketMessage example_lib
       (ready (TextMessage (motion_text_camera 2)))
       \<lparr>client = 7, cameraId = 1, lastActivity = 0\<rparr> init_server)))"
proof -
  have p2: "deserializeJson example_lib (motion_text_camera 2) =
      JObj [(''type'', JStr ''motion''), (''camera'', JInt 2), (''detected'', JBool True)]"
    by (simp add: example_parse_simps)
  have p1: "deserializeJson example_lib (motion_text_camera 1) =
      JObj [(''type'', JStr ''motion''), (''camera'', JInt 1), (''detected'', JBool True)]"
    by (simp add: example_parse_simps)
  have df: "differ_only_at ''camera''
      [(''type'', JStr ''motion''), (''camera'', JInt 2), (''detected'', JBool True)]
      [(''type'', JStr ''motion''), (''camera'', JInt 1), (''detected'', JBool True)]"
    by simp
  have w0: "wsBrowser init_server = []" by (simp add: init_server_def)
  note th = motion_event_identity [OF ready_simps(1) ready_heap ready_simps(3)
      motion_texts_contain(3) p2 handle_result,
      where c = "\<lparr>client = 7, cameraId = 1, lastActivity = 0\<rparr>" and s = init_server]
  have a: "wsBrowser (snd (snd (handleWebSocketMessage example_lib
       (ready (TextMessage (motion_text_camera 2)))
       \<lparr>client = 7, cameraId = 1, lastActivity = 0\<rparr> init_server))) =
     [TextAll ''{\"type\":\"motion\",\"camera\":1,\"detected\":true}'']"
    using th by (simp add: String_int_examples w0)
  have b: "wsBrowser (snd (snd (handleWebSocketMessage example_lib
       (ready (TextMessage (motion_text_camera 1)))
       \<lparr>client = 7, cameraId = 1, lastActivity = 0\<rparr> init_server))) =
     wsBrowser (snd (snd (handleWebSocketMessage example_lib
       (ready (TextMessage (motion_text_camera 2)))
       \<lparr>client = 7, cameraId = 1, lastActivity = 0\<rparr> init_server)))"
    using th [THEN conjunct2, THEN conjunct2, THEN conjunct2, THEN conjunct2, rule_format,
        where ?r2.0 = "ready (TextMessage (motion_text_camera 1))" and ?d2.0 = "motion_text_camera 1"
          and ?kvs2.0 = "[(''type'', JStr ''motion''), (''camera'', JInt 1), (''detected'', JBool True)]"]
      ready_simps(1) ready_heap ready_simps(3) motion_texts_contain(2) p1 df handle_result
    by blast
  show ?thesis using a b by simp
qed

text \<open>
  Claim C2 as stated fails: two messages of the motion-event shape that differ only in
  the value of their camera field are treated differently. Both are written with a
  space after the colon, so their own \<open>type\<close> member does not match the literal; the
  second has an object as camera value in which the literal occurs. The first is not
  broadcast at all, the second is broadcast (with the slot's identity as camera).
\<close>

theorem spaced_motion_texts_differ:
  "deserializeJson example_lib spaced_motion_text =
     JObj [(''type'', JStr ''motion''), (''camera'', JInt 2), (''detected'', JBool True)]
   \<and> deserializeJson example_lib spaced_motion_text_nested =
     JObj [(''type'', JStr ''motion''), (''camera'', JObj [(''type'', JStr ''motion'')]),
           (''detected'', JBool True)]
   \<and> differ_only_at ''camera''
     [(''type'', JStr ''motion''), (''camera'', JInt 2), (''detected'', JBool True)]
     [(''type'', JStr ''motion''), (''camera'', JObj [(''type'', JStr ''motion'')]),
      (''detected'', JBool True)]
   \<and> wsBrowser (snd (snd (handleWebSocketMessage example_lib
       (ready (TextMessage spaced_motion_text))
       \<lparr>client = 7, cameraId = 1, lastActivity = 0\<rparr> init_server))) = []
   \<and> wsBrowser (snd (snd (handleWebSocketMessage example_lib
       (ready (TextMessage spaced_motion_text_nested))
       \<lparr>client = 7, cameraId = 1, lastActivity = 0\<rparr> init_server))) =
     [TextAll ''{\"type\":\"motion\",\"camera\":1,\"detected\":true}'']"
proof -
  have w0: "wsBrowser init_server = []" by (simp add: init_server_def)
  have a: "wsBrowser (snd (snd (handleWebSocketMessage example_lib
       (ready (TextMessage spaced_motion_text))
       \<lparr>client = 7, cameraId = 1, lastActivity = 0\<rparr> init_server))) = []"
    using spaced_texts(3) by (simp add: handle_text w0)
  have b: "wsBrowser (snd (snd (handleWebSocketMessage example_lib
       (ready (TextMessage spaced_motion_text_nested))
       \<lparr>client = 7, cameraId = 1, lastActivity = 0\<rparr> init_server))) =
     [TextAll ''{\"type\":\"motion\",\"camera\":1,\"detected\":true}'']"
    using spaced_texts(4)
    by (simp add: handle_text MAX_FRAME_SIZE_def spaced_texts(2) textAll_def w0 String_int_examples)
  show ?thesis using a b by (simp add: spaced_texts)
qed

subsection \<open>Motion events of a slot without identity\<close>



subsection \<open>Oversized frames\<close>




end
